theory Spec2Isabelle
  imports Complex_Main
begin

section \<open>Tensors and the tensor operations the pipeline uses\<close>

text \<open>
  A tensor is its shape, its device, its dtype and its data, stored as the list of its
  slices along dimension 0 (one flattened row per batch item). Elements are real numbers:
  rounding of floating point is outside this development.
\<close>

record tensor =
  shape :: "int list"
  device :: string
  dtype :: string
  rows :: "real list list"

type_synonym addr = nat

type_synonym kwargs = "(string \<times> real) list"

datatype prompt = Single string | Batch "string list"

datatype error =
    ValueError_divisible int int
  | ValueError_shape "int list" "int list"
  | ValueError_device string string
  | ValueError_unpack
  | RuntimeError_size
  | RuntimeError_negative_dimension
  | AssertionError_empty

text \<open>\<^verbatim>\<open>x * s\<close> for a tensor \<open>x\<close> and a scalar \<open>s\<close>, and \<^verbatim>\<open>s * x\<close>.\<close>

definition tensor_mul_scalar :: "tensor \<Rightarrow> real \<Rightarrow> tensor" where
  "tensor_mul_scalar x s = x\<lparr>rows := map (map (\<lambda>v. v * s)) (rows x)\<rparr>"

definition scalar_mul_tensor :: "real \<Rightarrow> tensor \<Rightarrow> tensor" where
  "scalar_mul_tensor s x = x\<lparr>rows := map (map (\<lambda>v. s * v)) (rows x)\<rparr>"

text \<open>\<^verbatim>\<open>torch.cat([a, b])\<close>: concatenation along dimension 0.\<close>

definition cat :: "tensor \<Rightarrow> tensor \<Rightarrow> tensor" where
  "cat a b = a\<lparr>shape := int (length (rows a) + length (rows b)) # tl (shape a),
              rows := rows a @ rows b\<rparr>"

text \<open>
  \<^verbatim>\<open>a, b = x.chunk(2)\<close>: \<open>chunk\<close> cuts dimension 0 into pieces of
  \<open>\<lceil>n / 2\<rceil>\<close> slices. A tensor of one slice gives a single piece, and unpacking it into
  two names raises; an empty dimension gives two empty pieces.
\<close>

definition chunk2 :: "tensor \<Rightarrow> error + tensor \<times> tensor" where
  "chunk2 x =
     (let n = length (rows x); k = (n + 1) div 2 in
      if n = 1 then Inl ValueError_unpack
      else Inr (x\<lparr>shape := int k # tl (shape x), rows := take k (rows x)\<rparr>,
                x\<lparr>shape := int (n - k) # tl (shape x), rows := drop k (rows x)\<rparr>))"

text \<open>
  An elementwise binary operation on two tensors that agree beyond dimension 0 (the two
  pieces of one \<open>chunk\<close>): equally many slices are combined pairwise, a single slice is
  broadcast against the other operand, anything else raises.
\<close>

definition elementwise :: "(real \<Rightarrow> real \<Rightarrow> real) \<Rightarrow> tensor \<Rightarrow> tensor \<Rightarrow> error + tensor" where
  "elementwise f a b =
     (if length (rows a) = length (rows b) then
        Inr (a\<lparr>rows := map2 (map2 f) (rows a) (rows b)\<rparr>)
      else if length (rows b) = 1 then
        Inr (a\<lparr>rows := map (\<lambda>r. map2 f r (hd (rows b))) (rows a)\<rparr>)
      else if length (rows a) = 1 then
        Inr (b\<lparr>rows := map (\<lambda>r. map2 f (hd (rows a)) r) (rows b)\<rparr>)
      else Inl RuntimeError_size)"

definition to_device :: "tensor \<Rightarrow> string \<Rightarrow> tensor" where
  "to_device x d = x\<lparr>device := d\<rparr>"

text \<open>Python's \<^verbatim>\<open>int(t)\<close> on a number: truncation towards zero.\<close>

definition py_int :: "real \<Rightarrow> int" where
  "py_int t = (if 0 \<le> t then \<lfloor>t\<rfloor> else \<lceil>t\<rceil>)"

section \<open>The data the pipeline produces\<close>

text \<open>
  \<^verbatim>\<open>PipelineIntermediateState\<close>. Its field \<^verbatim>\<open>step\<close> is \<open>step_index\<close> here, the name
  \<open>step\<close> being the denoising step below. \<open>latents\<close> is a reference: the address of
  the tensor in the store.
\<close>

record PipelineIntermediateState =
  run_id :: string
  step_index :: int
  timestep :: int
  latents :: addr
  predicted_original :: "tensor option"

record StableDiffusionPipelineOutput =
  images :: tensor
  nsfw_content_detected :: "bool list"

datatype element =
    State PipelineIntermediateState
  | Output StableDiffusionPipelineOutput

record step_output =
  prev_sample :: tensor
  pred_original_sample :: "tensor option"

section \<open>The collaborators\<close>

text \<open>
  Every call of a collaborator is recorded, with its arguments, in the order it happens.
\<close>

datatype call =
    Tokenizer prompt
  | TextEncoder "int list list"
  | SetTimesteps int
  | Randn "int list"
  | TokenUrlsafe nat
  | ScaleModelInput tensor real
  | Unet tensor real tensor
  | SchedulerStep tensor real tensor kwargs
  | CudaEmptyCache
  | VaeDecode tensor
  | FeatureExtractor tensor
  | SafetyChecker tensor tensor

text \<open>
  The pipeline object \<^verbatim>\<open>self\<close>: its registered modules as functions. They are opaque:
  nothing is assumed of what they compute. A module that keeps state between calls (the
  scheduler) takes and returns that state, of type \<open>'s\<close>. \<open>safety_checker\<close> and
  \<open>feature_extractor\<close> may be unset. \<open>token_urlsafe\<close> is \<^verbatim>\<open>secrets.token_urlsafe\<close>:
  the token the entropy source gives for this run. \<open>numpy_image\<close> is
  \<^verbatim>\<open>.cpu().permute(0, 2, 3, 1).numpy()\<close>. \<open>timesteps\<close> is the scheduler's schedule
  as the loop iterates over it (\<^verbatim>\<open>progress_bar\<close> only wraps the iteration).

  Two things are taken for granted of the collaborators: a call returns (an exception
  raised inside a collaborator would end the run at that call, and is not modelled), and
  it returns tensors of its own, leaving the tensors of the store as they are. The
  extra keyword arguments of a step are handed to the scheduler as they come.
\<close>

record 's pipeline =
  tokenizer :: "prompt \<Rightarrow> int list list"
  text_encoder :: "int list list \<Rightarrow> tensor"
  unet :: "tensor \<Rightarrow> real \<Rightarrow> tensor \<Rightarrow> tensor"
  unet_in_channels :: int
  unet_device :: string
  unet_dtype :: string
  vae_decode :: "tensor \<Rightarrow> tensor"
  numpy_image :: "tensor \<Rightarrow> tensor"
  safety_checker :: "(tensor \<Rightarrow> tensor \<Rightarrow> tensor \<times> bool list) option"
  feature_extractor :: "(tensor \<Rightarrow> tensor) option"
  set_timesteps :: "int \<Rightarrow> 's \<Rightarrow> 's"
  init_noise_sigma :: "'s \<Rightarrow> real"
  num_train_timesteps :: "'s \<Rightarrow> int"
  timesteps :: "'s \<Rightarrow> real list"
  scale_model_input :: "tensor \<Rightarrow> real \<Rightarrow> 's \<Rightarrow> tensor \<times> 's"
  scheduler_step :: "tensor \<Rightarrow> real \<Rightarrow> tensor \<Rightarrow> kwargs \<Rightarrow> 's \<Rightarrow> step_output \<times> 's"
  token_urlsafe :: "nat \<Rightarrow> string"

text \<open>
  What a run reads and changes: the store of tensors (a reference is an index into it),
  the scheduler's state, and the record of collaborator calls.
\<close>

record 's world =
  heap :: "tensor list"
  scheduler :: 's
  calls :: "call list"

definition ID_LENGTH :: nat where
  "ID_LENGTH = 8"

definition log_call :: "call \<Rightarrow> 's world \<Rightarrow> 's world" where
  "log_call c w = w\<lparr>calls := calls w @ [c]\<rparr>"

definition alloc :: "tensor \<Rightarrow> 's world \<Rightarrow> addr \<times> 's world" where
  "alloc x w = (length (heap w), w\<lparr>heap := heap w @ [x]\<rparr>)"

text \<open>\<^verbatim>\<open>latents *= s\<close>: the tensor at the address is overwritten by its multiple.\<close>

definition imul :: "addr \<Rightarrow> real \<Rightarrow> 's world \<Rightarrow> 's world" where
  "imul a s w = w\<lparr>heap := (heap w)[a := tensor_mul_scalar (heap w ! a) s]\<rparr>"

section \<open>The pipeline\<close>

subsection \<open>Text conditioning\<close>

text \<open>
  \<^verbatim>\<open>opposing_prompt or [""] * batch_size\<close>: Python's \<open>or\<close> takes the default when the
  left operand is \<open>None\<close>, the empty string or the empty list.
\<close>

definition opposing_or_blank :: "prompt option \<Rightarrow> nat \<Rightarrow> prompt" where
  "opposing_or_blank opposing_prompt batch_size =
     (case opposing_prompt of
        None \<Rightarrow> Batch (replicate batch_size '''')
      | Some (Single s) \<Rightarrow> if s = '''' then Batch (replicate batch_size '''') else Single s
      | Some (Batch ps) \<Rightarrow> if ps = [] then Batch (replicate batch_size '''') else Batch ps)"

definition get_text_embeddings ::
  "'s pipeline \<Rightarrow> prompt \<Rightarrow> prompt option \<Rightarrow> bool \<Rightarrow> nat \<Rightarrow> 's world \<Rightarrow> tensor \<times> 's world" where
  "get_text_embeddings p prompt opposing_prompt do_classifier_free_guidance batch_size w =
     (let text_input = tokenizer p prompt;
          w1 = log_call (Tokenizer prompt) w;
          text_embeddings = text_encoder p text_input;
          w2 = log_call (TextEncoder text_input) w1
      in if do_classifier_free_guidance then
           (let anti = opposing_or_blank opposing_prompt batch_size;
                text_anti_input = tokenizer p anti;
                w3 = log_call (Tokenizer anti) w2;
                uncond_embeddings = text_encoder p text_anti_input;
                w4 = log_call (TextEncoder text_anti_input) w3
            in (cat uncond_embeddings text_embeddings, w4))
         else (text_embeddings, w2))"

subsection \<open>Latent initialisation\<close>

text \<open>
  \<^verbatim>\<open>torch.randn(shape, generator=generator, device=..., dtype=...)\<close>: the generator is
  the function that gives the sampled data for a shape; a negative dimension raises.
\<close>

definition randn ::
  "int list \<Rightarrow> (int list \<Rightarrow> real list list) \<Rightarrow> string \<Rightarrow> string \<Rightarrow> error + tensor" where
  "randn latents_shape generator dev dt =
     (if list_ex (\<lambda>d. d < 0) latents_shape then Inl RuntimeError_negative_dimension
      else Inr \<lparr>shape = latents_shape, device = dev, dtype = dt,
                rows = generator latents_shape\<rparr>)"

definition prepare_latents ::
  "'s pipeline \<Rightarrow> addr option \<Rightarrow> nat \<Rightarrow> int \<Rightarrow> int \<Rightarrow> (int list \<Rightarrow> real list list) \<Rightarrow> string
     \<Rightarrow> 's world \<Rightarrow> (error + addr) \<times> 's world" where
  "prepare_latents p latents_opt batch_size height width generator dt w =
     (let latents_shape = [int batch_size, unet_in_channels p, height div 8, width div 8];
          r = (case latents_opt of
                 None \<Rightarrow>
                   (case randn latents_shape generator (unet_device p) dt of
                      Inl e \<Rightarrow> (Inl e, log_call (Randn latents_shape) w)
                    | Inr x \<Rightarrow>
                        (case alloc x (log_call (Randn latents_shape) w) of
                           (a, w1) \<Rightarrow> (Inr a, w1)))
               | Some a \<Rightarrow>
                   if shape (heap w ! a) \<noteq> latents_shape
                   then (Inl (ValueError_shape (shape (heap w ! a)) latents_shape), w)
                   else (Inr a, w))
      in case r of
           (Inl e, w1) \<Rightarrow> (Inl e, w1)
         | (Inr a, w1) \<Rightarrow>
             if device (heap w1 ! a) \<noteq> unet_device p
             then (Inl (ValueError_device (device (heap w1 ! a)) (unet_device p)), w1)
             else (Inr a, imul a (init_noise_sigma p (scheduler w1)) w1))"

subsection \<open>One denoising step\<close>

definition call_scale_model_input ::
  "'s pipeline \<Rightarrow> tensor \<Rightarrow> real \<Rightarrow> 's world \<Rightarrow> tensor \<times> 's world" where
  "call_scale_model_input p x t w =
     (case scale_model_input p x t (scheduler w) of
        (y, s) \<Rightarrow> (y, log_call (ScaleModelInput x t) (w\<lparr>scheduler := s\<rparr>)))"

definition call_scheduler_step ::
  "'s pipeline \<Rightarrow> tensor \<Rightarrow> real \<Rightarrow> tensor \<Rightarrow> kwargs \<Rightarrow> 's world \<Rightarrow> step_output \<times> 's world" where
  "call_scheduler_step p noise_pred t x extra_step_kwargs w =
     (case scheduler_step p noise_pred t x extra_step_kwargs (scheduler w) of
        (out, s) \<Rightarrow>
          (out, log_call (SchedulerStep noise_pred t x extra_step_kwargs)
                  (w\<lparr>scheduler := s\<rparr>)))"

text \<open>
  \<^verbatim>\<open>noise_pred_uncond + guidance_scale * (noise_pred_text - noise_pred_uncond)\<close>
\<close>

definition guidance :: "real \<Rightarrow> tensor \<Rightarrow> tensor \<Rightarrow> error + tensor" where
  "guidance guidance_scale noise_pred_uncond noise_pred_text =
     (case elementwise (\<lambda>a b. a - b) noise_pred_text noise_pred_uncond of
        Inl e \<Rightarrow> Inl e
      | Inr d \<Rightarrow> elementwise (\<lambda>a b. a + b) noise_pred_uncond
                  (scalar_mul_tensor guidance_scale d))"

text \<open>
  The noise prediction handed to the scheduler: the network's own when guidance is off,
  the recombined halves when it is on.
\<close>

definition combine :: "real \<Rightarrow> tensor \<Rightarrow> error + tensor" where
  "combine guidance_scale noise_pred =
     (if guidance_scale > 1 then
        (case chunk2 noise_pred of
           Inl e \<Rightarrow> Inl e
         | Inr (noise_pred_uncond, noise_pred_text) \<Rightarrow>
             guidance guidance_scale noise_pred_uncond noise_pred_text)
      else Inr noise_pred)"

definition step ::
  "'s pipeline \<Rightarrow> real \<Rightarrow> addr \<Rightarrow> real \<Rightarrow> tensor \<Rightarrow> kwargs \<Rightarrow> 's world
     \<Rightarrow> (error + step_output) \<times> 's world" where
  "step p t latents_ref guidance_scale text_embeddings extra_step_kwargs w =
     (let x = heap w ! latents_ref in
      case call_scale_model_input p (if guidance_scale > 1 then cat x x else x) t w of
        (latent_model_input, w1) \<Rightarrow>
          (let noise_pred = unet p latent_model_input t text_embeddings;
               w2 = log_call (Unet latent_model_input t text_embeddings) w1
           in case combine guidance_scale noise_pred of
                Inl e \<Rightarrow> (Inl e, w2)
              | Inr noise \<Rightarrow>
                  (case call_scheduler_step p noise t x extra_step_kwargs w2 of
                     (out, w3) \<Rightarrow> (Inr out, w3))))"

subsection \<open>Post-processing\<close>

definition check_for_safety ::
  "'s pipeline \<Rightarrow> StableDiffusionPipelineOutput \<Rightarrow> 's world
     \<Rightarrow> StableDiffusionPipelineOutput \<times> 's world" where
  "check_for_safety p output w =
     (case feature_extractor p of
        None \<Rightarrow> (output, w)
      | Some extract \<Rightarrow>
          (case safety_checker p of
             None \<Rightarrow> (output, w)
           | Some checker \<Rightarrow>
               (let imgs = images output;
                    clip_input = extract imgs;
                    w1 = log_call (FeatureExtractor imgs) w
                in case checker imgs clip_input of
                     (screened_images, has_nsfw_concept) \<Rightarrow>
                       (\<lparr>images = screened_images,
                         nsfw_content_detected = has_nsfw_concept\<rparr>,
                        log_call (SafetyChecker imgs clip_input) w1))))"

definition decode_to_image :: "'s pipeline \<Rightarrow> addr \<Rightarrow> 's world \<Rightarrow> tensor \<times> 's world" where
  "decode_to_image p latents_ref w =
     (let x = scalar_mul_tensor (1 / 0.18215) (heap w ! latents_ref);
          decoded = vae_decode p x;
          w1 = log_call (VaeDecode x) w;
          clamped =
            decoded\<lparr>rows := map (map (\<lambda>v. min (max (v / 2 + 0.5) 0) 1)) (rows decoded)\<rparr>
      in (numpy_image p clamped, w1))"

subsection \<open>The generation loop\<close>

text \<open>
  A generator is modelled by what draining it gives: the elements it yields, in order,
  the exception that ended it if one did, and the world afterwards. (The body of a
  Python generator starts to run when its first element is asked for; what is said below
  of a call of \<open>generate\<close> or \<open>generate_from_embeddings\<close> is said of draining it.)
\<close>

type_synonym 's drained = "element list \<times> error option \<times> 's world"

text \<open>
  The \<^verbatim>\<open>for i, t in enumerate(...)\<close> loop of \<^verbatim>\<open>generate_from_embeddings\<close>, over what
  is left of the enumeration. It gives the states yielded and, when no step raised, the
  reference to the last latents.
\<close>

fun denoise ::
  "'s pipeline \<Rightarrow> string \<Rightarrow> real \<Rightarrow> tensor \<Rightarrow> kwargs \<Rightarrow> (nat \<times> real) list \<Rightarrow> addr \<Rightarrow> 's world
     \<Rightarrow> element list \<times> (error + addr) \<times> 's world" where
  "denoise p rid guidance_scale text_embeddings extra_step_kwargs [] latents_ref w =
     ([], Inr latents_ref, w)"
| "denoise p rid guidance_scale text_embeddings extra_step_kwargs ((i, t) # its) latents_ref w =
     (case step p t latents_ref guidance_scale text_embeddings extra_step_kwargs w of
        (Inl e, w1) \<Rightarrow> ([], Inl e, w1)
      | (Inr step_out, w1) \<Rightarrow>
          (case alloc (prev_sample step_out) w1 of
             (latents1, w2) \<Rightarrow>
               (case denoise p rid guidance_scale text_embeddings extra_step_kwargs its
                       latents1 w2 of
                  (els, r, w3) \<Rightarrow>
                    (State \<lparr>run_id = rid, step_index = int i, timestep = py_int t,
                            latents = latents1,
                            predicted_original = pred_original_sample step_out\<rparr> # els,
                     r, w3))))"

definition generate_from_embeddings ::
  "'s pipeline \<Rightarrow> addr \<Rightarrow> tensor \<Rightarrow> real \<Rightarrow> string option \<Rightarrow> kwargs \<Rightarrow> 's world \<Rightarrow> 's drained" where
  "generate_from_embeddings p latents_ref text_embeddings guidance_scale run_id_opt
       extra_step_kwargs w =
     (case (case run_id_opt of
              None \<Rightarrow> (token_urlsafe p ID_LENGTH, log_call (TokenUrlsafe ID_LENGTH) w)
            | Some r \<Rightarrow> (r, w)) of
        (rid, w1) \<Rightarrow>
          (let w2 = imul latents_ref (init_noise_sigma p (scheduler w1)) w1;
               initial = State \<lparr>run_id = rid, step_index = - 1,
                                timestep = num_train_timesteps p (scheduler w2),
                                latents = latents_ref, predicted_original = None\<rparr>;
               ts = timesteps p (scheduler w2)
           in case denoise p rid guidance_scale text_embeddings extra_step_kwargs
                     (zip [0..<length ts] ts) latents_ref w2 of
                (els, Inl e, w3) \<Rightarrow> (initial # els, Some e, w3)
              | (els, Inr latents1, w3) \<Rightarrow>
                  (case decode_to_image p latents1 (log_call CudaEmptyCache w3) of
                     (decoded, w5) \<Rightarrow>
                       (case check_for_safety p
                               \<lparr>images = decoded, nsfw_content_detected = []\<rparr> w5 of
                          (out, w6) \<Rightarrow> (initial # els @ [Output out], None, w6)))))"

definition generate ::
  "'s pipeline \<Rightarrow> prompt \<Rightarrow> prompt option \<Rightarrow> int \<Rightarrow> int \<Rightarrow> int \<Rightarrow> real
     \<Rightarrow> (int list \<Rightarrow> real list list) \<Rightarrow> addr option \<Rightarrow> string option \<Rightarrow> kwargs
     \<Rightarrow> 's world \<Rightarrow> 's drained" where
  "generate p prompt opposing_prompt height width num_inference_steps guidance_scale
       generator latents_opt run_id_opt extra_step_kwargs w =
     (let batch_size = (case prompt of Single s \<Rightarrow> 1 | Batch ps \<Rightarrow> length ps)
      in if height mod 8 \<noteq> 0 \<or> width mod 8 \<noteq> 0
         then ([], Some (ValueError_divisible height width), w)
         else
           (case get_text_embeddings p prompt opposing_prompt (guidance_scale > 1)
                   batch_size w of
              (emb, w1) \<Rightarrow>
                (let text_embeddings = to_device emb (unet_device p);
                     w2 = log_call (SetTimesteps num_inference_steps)
                            (w1\<lparr>scheduler :=
                                  set_timesteps p num_inference_steps (scheduler w1)\<rparr>)
                 in case prepare_latents p latents_opt batch_size height width generator
                           (unet_dtype p) w2 of
                      (Inl e, w3) \<Rightarrow> ([], Some e, w3)
                    | (Inr latents1, w3) \<Rightarrow>
                        generate_from_embeddings p latents1 text_embeddings guidance_scale
                          run_id_opt extra_step_kwargs w3)))"

subsection \<open>The convenience entry points\<close>

text \<open>
  A callback is a function of the element it is given and of the observer's own state
  \<open>'c\<close>; it is run on the elements in the order they are yielded. The entry points give
  the last element (or the exception), the world and the observer's state.
\<close>

definition last_result :: "element list \<Rightarrow> error option \<Rightarrow> error + element" where
  "last_result els err =
     (case err of
        Some e \<Rightarrow> Inl e
      | None \<Rightarrow> (case els of [] \<Rightarrow> Inl AssertionError_empty | x # xs \<Rightarrow> Inr (last els)))"

definition pipeline_call ::
  "'s pipeline \<Rightarrow> prompt \<Rightarrow> int \<Rightarrow> int \<Rightarrow> int \<Rightarrow> real \<Rightarrow> (int list \<Rightarrow> real list list)
     \<Rightarrow> addr option \<Rightarrow> (element \<Rightarrow> 'c \<Rightarrow> 'c) option \<Rightarrow> kwargs \<Rightarrow> 's world \<Rightarrow> 'c
     \<Rightarrow> (error + element) \<times> 's world \<times> 'c" where
  "pipeline_call p prompt height width num_inference_steps guidance_scale generator
       latents_opt callback extra_step_kwargs w c =
     (case generate p prompt None height width num_inference_steps guidance_scale generator
             latents_opt None extra_step_kwargs w of
        (els, err, w1) \<Rightarrow>
          (last_result els err, w1,
           (case callback of
              None \<Rightarrow> c
            | Some cb \<Rightarrow> foldl (\<lambda>c1 result. cb result c1) c els)))"

fun is_State :: "element \<Rightarrow> bool" where
  "is_State (State st) = True"
| "is_State (Output out) = False"

definition image_from_embeddings ::
  "'s pipeline \<Rightarrow> addr \<Rightarrow> int \<Rightarrow> tensor \<Rightarrow> real \<Rightarrow> (element \<Rightarrow> 'c \<Rightarrow> 'c) option \<Rightarrow> string option
     \<Rightarrow> kwargs \<Rightarrow> 's world \<Rightarrow> 'c \<Rightarrow> (error + element) \<times> 's world \<times> 'c" where
  "image_from_embeddings p latents_ref num_inference_steps text_embeddings guidance_scale
       callback run_id_opt extra_step_kwargs w c =
     (let w1 = log_call (SetTimesteps num_inference_steps)
                 (w\<lparr>scheduler := set_timesteps p num_inference_steps (scheduler w)\<rparr>)
      in case generate_from_embeddings p latents_ref text_embeddings guidance_scale
                run_id_opt extra_step_kwargs w1 of
           (els, err, w2) \<Rightarrow>
             (last_result els err, w2,
              (case callback of
                 None \<Rightarrow> c
               | Some cb \<Rightarrow>
                   foldl (\<lambda>c1 result. if is_State result then cb result c1 else c1) c els)))"

section \<open>A small pipeline on which the theorems are exercised\<close>

text \<open>
  One latent channel on device \<open>cpu\<close>; the tokenizer gives each prompt its length, the
  encoder turns that number into the embedding, the network multiplies every slice of its
  input by the embedding of the same position, the scheduler has initial sigma 2, counts
  its timesteps down from the step count and subtracts the noise from the sample.
\<close>

definition demo_tokens :: "prompt \<Rightarrow> int list list" where
  "demo_tokens pr = (case pr of Single s \<Rightarrow> [[int (length s)]]
                     | Batch ps \<Rightarrow> map (\<lambda>s. [int (length s)]) ps)"

definition demo_encoder :: "int list list \<Rightarrow> tensor" where
  "demo_encoder ids = \<lparr>shape = [int (length ids), 1, 1], device = ''host'',
                        dtype = ''float32'', rows = map (map real_of_int) ids\<rparr>"

definition demo_unet :: "tensor \<Rightarrow> real \<Rightarrow> tensor \<Rightarrow> tensor" where
  "demo_unet x t e = x\<lparr>rows := map2 (\<lambda>r er. map (\<lambda>v. v * hd er) r) (rows x) (rows e)\<rparr>"

definition demo_scheduler_step ::
  "tensor \<Rightarrow> real \<Rightarrow> tensor \<Rightarrow> kwargs \<Rightarrow> nat \<Rightarrow> step_output \<times> nat" where
  "demo_scheduler_step noise t x kw s =
     (\<lparr>prev_sample = x\<lparr>rows := map2 (map2 (\<lambda>a b. a - b)) (rows x) (rows noise)\<rparr>,
       pred_original_sample = None\<rparr>, s)"

definition demo_timesteps :: "nat \<Rightarrow> real list" where
  "demo_timesteps s = map real (rev [0..<s])"

definition demo :: "nat pipeline" where
  "demo = \<lparr>tokenizer = demo_tokens, text_encoder = demo_encoder, unet = demo_unet,
            unet_in_channels = 1, unet_device = ''cpu'', unet_dtype = ''float32'',
            vae_decode = (\<lambda>x. x), numpy_image = (\<lambda>x. x),
            safety_checker = None, feature_extractor = None,
            set_timesteps = (\<lambda>n s. nat n), init_noise_sigma = (\<lambda>s. 2),
            num_train_timesteps = (\<lambda>s. 1000), timesteps = demo_timesteps,
            scale_model_input = (\<lambda>x t s. (x, s)), scheduler_step = demo_scheduler_step,
            token_urlsafe = (\<lambda>n. ''q1w2e3r4t5y'')\<rparr>"

text \<open>The same pipeline with a feature extractor and a checker that flags every image.\<close>

definition demo_checked :: "nat pipeline" where
  "demo_checked = demo\<lparr>safety_checker := Some (\<lambda>imgs clip. (imgs, map (\<lambda>r. True) (rows imgs))),
                        feature_extractor := Some (\<lambda>imgs. imgs)\<rparr>"

definition unit_latent :: tensor where
  "unit_latent = \<lparr>shape = [1, 1, 1, 1], device = ''cpu'', dtype = ''float32'', rows = [[1]]\<rparr>"

definition demo_world :: "nat world" where
  "demo_world = \<lparr>heap = [unit_latent], scheduler = 0, calls = []\<rparr>"

definition demo_generator :: "int list \<Rightarrow> real list list" where
  "demo_generator sh = replicate (nat (hd sh)) (replicate (nat (prod_list (tl sh))) 1)"

section \<open>Observing a run\<close>

text \<open>The callback that writes down every element it is given.\<close>

definition record_element :: "element \<Rightarrow> element list \<Rightarrow> element list" where
  "record_element result seen = seen @ [result]"

fun is_TokenUrlsafe :: "call \<Rightarrow> bool" where
  "is_TokenUrlsafe (TokenUrlsafe n) = True"
| "is_TokenUrlsafe c = False"

fun is_TextEncoder :: "call \<Rightarrow> bool" where
  "is_TextEncoder (TextEncoder ids) = True"
| "is_TextEncoder c = False"

text \<open>
  A record of calls is \<open>conditional_only\<close> for an embedding when every noise prediction
  given to the scheduler's step is what the network returned in the call just before,
  and that call had the embedding as its conditioning. The second argument is the call
  before the ones still to be read.
\<close>

fun conditional_only :: "'s pipeline \<Rightarrow> tensor \<Rightarrow> call option \<Rightarrow> call list \<Rightarrow> bool" where
  "conditional_only p emb before [] = True"
| "conditional_only p emb before (SchedulerStep noise t x kw # cs) =
     ((case before of
         Some (Unet y t1 e) \<Rightarrow> e = emb \<and> t1 = t \<and> noise = unet p y t1 e
       | _ \<Rightarrow> False)
      \<and> conditional_only p emb (Some (SchedulerStep noise t x kw)) cs)"
| "conditional_only p emb before (c # cs) = conditional_only p emb (Some c) cs"

text \<open>The calls a run added to the record.\<close>

definition new_calls :: "'s world \<Rightarrow> 's world \<Rightarrow> call list" where
  "new_calls w w1 = drop (length (calls w)) (calls w1)"

text \<open>The calls a loop makes are those of the network and of the scheduler.\<close>

fun loop_call :: "call \<Rightarrow> bool" where
  "loop_call (ScaleModelInput x t) = True"
| "loop_call (Unet x t e) = True"
| "loop_call (SchedulerStep n t x kw) = True"
| "loop_call c = False"

text \<open>The calls of safety screening.\<close>

fun safety_call :: "call \<Rightarrow> bool" where
  "safety_call (FeatureExtractor x) = True"
| "safety_call (SafetyChecker x y) = True"
| "safety_call c = False"

section \<open>What each operation leaves alone\<close>

lemma log_call_fields [simp]:
  "heap (log_call c w) = heap w" "scheduler (log_call c w) = scheduler w"
  "calls (log_call c w) = calls w @ [c]"
  by (simp_all add: log_call_def)

lemma imul_fields [simp]:
  "heap (imul a s w) = (heap w)[a := tensor_mul_scalar (heap w ! a) s]"
  "scheduler (imul a s w) = scheduler w" "calls (imul a s w) = calls w"
  by (simp_all add: imul_def)

lemma alloc_fields:
  "alloc x w = (a, w1) \<Longrightarrow>
     a = length (heap w) \<and> heap w1 = heap w @ [x] \<and> scheduler w1 = scheduler w
     \<and> calls w1 = calls w"
  by (auto simp: alloc_def)

lemma get_text_embeddings_fields:
  "get_text_embeddings p prompt opposing_prompt flag batch_size w = (emb, w1) \<Longrightarrow>
     heap w1 = heap w \<and> scheduler w1 = scheduler w"
  by (auto simp: get_text_embeddings_def Let_def split: if_splits)

lemma get_text_embeddings_unguided:
  "get_text_embeddings p prompt opposing_prompt False batch_size w =
     (text_encoder p (tokenizer p prompt),
      log_call (TextEncoder (tokenizer p prompt)) (log_call (Tokenizer prompt) w))"
  by (simp add: get_text_embeddings_def Let_def)

lemma step_heap:
  "step p t a g emb kw w = (r, w1) \<Longrightarrow> heap w1 = heap w"
  by (auto simp: step_def Let_def call_scale_model_input_def call_scheduler_step_def
           split: prod.splits sum.splits)

lemma step_unguided:
  assumes "\<not> 1 < g"
  shows "step p t a g emb kw w =
           (let x = heap w ! a;
                y = fst (scale_model_input p x t (scheduler w));
                s1 = snd (scale_model_input p x t (scheduler w));
                noise = unet p y t emb
            in (Inr (fst (scheduler_step p noise t x kw s1)),
                w\<lparr>scheduler := snd (scheduler_step p noise t x kw s1),
                  calls := calls w @ [ScaleModelInput x t, Unet y t emb,
                                      SchedulerStep noise t x kw]\<rparr>))"
  using assms
  by (simp add: step_def Let_def call_scale_model_input_def call_scheduler_step_def
        combine_def log_call_def split: prod.splits)

lemma decode_to_image_fields:
  "decode_to_image p a w = (img, w1) \<Longrightarrow>
     heap w1 = heap w \<and> scheduler w1 = scheduler w
     \<and> (\<exists>x. calls w1 = calls w @ [VaeDecode x])"
  by (auto simp: decode_to_image_def Let_def)

lemma check_for_safety_heap:
  "check_for_safety p out w = (out1, w1) \<Longrightarrow> heap w1 = heap w"
  by (auto simp: check_for_safety_def Let_def split: option.splits prod.splits)

lemma denoise_heap:
  "denoise p rid g emb kw its a w = (els, r, w1) \<Longrightarrow> \<exists>ys. heap w1 = heap w @ ys"
proof (induction its arbitrary: a w els r w1)
  case Nil
  then show ?case by simp
next
  case (Cons it its)
  obtain i t where it: "it = (i, t)" by (cases it)
  obtain so w2 where st: "step p t a g emb kw w = (so, w2)"
    by (cases "step p t a g emb kw w")
  have h2: "heap w2 = heap w" using step_heap [OF st] .
  show ?case
  proof (cases so)
    case (Inl e)
    with Cons.prems st it h2 show ?thesis by auto
  next
    case (Inr out)
    obtain a1 w3 where al: "alloc (prev_sample out) w2 = (a1, w3)"
      by (cases "alloc (prev_sample out) w2")
    obtain els1 r1 w4 where d: "denoise p rid g emb kw its a1 w3 = (els1, r1, w4)"
      by (cases "denoise p rid g emb kw its a1 w3") auto
    from Cons.IH [OF d] obtain ys where "heap w4 = heap w3 @ ys" by blast
    moreover from alloc_fields [OF al] h2 have "heap w3 = heap w @ [prev_sample out]" by simp
    moreover from Cons.prems st it Inr al d have "w1 = w4" by simp
    ultimately show ?thesis by simp
  qed
qed

lemma denoise_states:
  "denoise p rid g emb kw its a w = (els, r, w1) \<Longrightarrow>
     \<exists>sts. els = map State sts \<and> (\<forall>st \<in> set sts. run_id st = rid) \<and>
       map step_index sts = map (\<lambda>it. int (fst it)) (take (length sts) its) \<and>
       (case r of Inr b \<Rightarrow> length sts = length its | Inl e \<Rightarrow> length sts < length its)"
proof (induction its arbitrary: a w els r w1)
  case Nil
  then show ?case by auto
next
  case (Cons it its)
  obtain i t where it: "it = (i, t)" by (cases it)
  obtain so w2 where st: "step p t a g emb kw w = (so, w2)"
    by (cases "step p t a g emb kw w")
  show ?case
  proof (cases so)
    case (Inl e)
    with Cons.prems st it show ?thesis by auto
  next
    case (Inr out)
    obtain a1 w3 where al: "alloc (prev_sample out) w2 = (a1, w3)"
      by (cases "alloc (prev_sample out) w2")
    obtain els1 r1 w4 where d: "denoise p rid g emb kw its a1 w3 = (els1, r1, w4)"
      by (cases "denoise p rid g emb kw its a1 w3") auto
    from Cons.IH [OF d] obtain sts where
      s: "els1 = map State sts" "\<forall>st \<in> set sts. run_id st = rid"
         "map step_index sts = map (\<lambda>it. int (fst it)) (take (length sts) its)"
         "(case r1 of Inr b \<Rightarrow> length sts = length its | Inl e \<Rightarrow> length sts < length its)"
      by blast
    let ?st = "\<lparr>run_id = rid, step_index = int i, timestep = py_int t, latents = a1,
                predicted_original = pred_original_sample out\<rparr>"
    from Cons.prems st it Inr al d have e: "els = State ?st # els1" "r = r1" by auto
    show ?thesis
      apply (rule exI [of _ "?st # sts"])
      using s e it by (auto split: sum.splits)
  qed
qed

lemma denoise_unguided_total:
  "\<not> 1 < g \<Longrightarrow> denoise p rid g emb kw its a w = (els, r, w1) \<Longrightarrow> \<exists>b. r = Inr b"
proof (induction its arbitrary: a w els r w1)
  case Nil
  then show ?case by auto
next
  case (Cons it its)
  obtain i t where it: "it = (i, t)" by (cases it)
  obtain so w2 where st: "step p t a g emb kw w = (so, w2)"
    by (cases "step p t a g emb kw w")
  from st step_unguided [OF Cons.prems(1), of p t a emb kw w] obtain out where so: "so = Inr out"
    by (auto simp: Let_def)
  obtain a1 w3 where al: "alloc (prev_sample out) w2 = (a1, w3)"
    by (cases "alloc (prev_sample out) w2")
  obtain els1 r1 w4 where d: "denoise p rid g emb kw its a1 w3 = (els1, r1, w4)"
    by (cases "denoise p rid g emb kw its a1 w3") auto
  from Cons.IH [OF Cons.prems(1) d] obtain b where "r1 = Inr b" by blast
  moreover from Cons.prems(2) st it so al d have "r = r1" by simp
  ultimately show ?case by simp
qed

lemma denoise_last:
  "denoise p rid g emb kw its a w = (map State sts, Inr b, w1) \<Longrightarrow>
     b = last (a # map latents sts)"
proof (induction its arbitrary: a w sts w1)
  case Nil
  then show ?case by auto
next
  case (Cons it its)
  obtain i t where it: "it = (i, t)" by (cases it)
  obtain so w2 where st: "step p t a g emb kw w = (so, w2)"
    by (cases "step p t a g emb kw w")
  show ?case
  proof (cases so)
    case (Inl e)
    with Cons.prems st it show ?thesis by auto
  next
    case (Inr out)
    obtain a1 w3 where al: "alloc (prev_sample out) w2 = (a1, w3)"
      by (cases "alloc (prev_sample out) w2")
    obtain els1 r1 w4 where d: "denoise p rid g emb kw its a1 w3 = (els1, r1, w4)"
      by (cases "denoise p rid g emb kw its a1 w3") auto
    from Cons.prems st it Inr al d obtain st1 sts1 where
      s: "sts = st1 # sts1" "els1 = map State sts1" "r1 = Inr b" "latents st1 = a1"
      by (cases sts) auto
    from Cons.IH [of a1 w3 sts1 w4] d s have "b = last (a1 # map latents sts1)" by simp
    with s show ?thesis by simp
  qed
qed

lemma decode_to_image_image:
  "heap w ! b = heap w1 ! b \<Longrightarrow> fst (decode_to_image p b w) = fst (decode_to_image p b w1)"
  by (simp add: decode_to_image_def Let_def)

section \<open>The shape of a drained generation loop\<close>

lemma generate_from_embeddings_cases:
  assumes run: "generate_from_embeddings p a emb g rid_opt kw w = (els, err, w1)"
  obtains sts r w2 w3 rid where
    "rid = (case rid_opt of None \<Rightarrow> token_urlsafe p ID_LENGTH | Some r \<Rightarrow> r)"
    "w2 = imul a (init_noise_sigma p (scheduler w))
            (case rid_opt of None \<Rightarrow> log_call (TokenUrlsafe ID_LENGTH) w | Some r \<Rightarrow> w)"
    "denoise p rid g emb kw
       (zip [0..<length (timesteps p (scheduler w))] (timesteps p (scheduler w))) a w2
       = (map State sts, r, w3)"
    "\<forall>st \<in> set sts. run_id st = rid"
    "map step_index sts = map int [0..<length sts]"
    "length sts \<le> length (timesteps p (scheduler w))"
    "(\<exists>e. r = Inl e \<and> err = Some e \<and> w1 = w3
          \<and> length sts < length (timesteps p (scheduler w))
          \<and> els = State \<lparr>run_id = rid, step_index = - 1,
                           timestep = num_train_timesteps p (scheduler w), latents = a,
                           predicted_original = None\<rparr> # map State sts)
     \<or> (\<exists>b out. r = Inr b \<and> err = None
          \<and> length sts = length (timesteps p (scheduler w))
          \<and> (out, w1) = check_for_safety p
                \<lparr>images = fst (decode_to_image p b (log_call CudaEmptyCache w3)),
                 nsfw_content_detected = []\<rparr>
                (snd (decode_to_image p b (log_call CudaEmptyCache w3)))
          \<and> els = State \<lparr>run_id = rid, step_index = - 1,
                           timestep = num_train_timesteps p (scheduler w), latents = a,
                           predicted_original = None\<rparr> # map State sts @ [Output out])"
proof -
  define rid where "rid = (case rid_opt of None \<Rightarrow> token_urlsafe p ID_LENGTH | Some r \<Rightarrow> r)"
  define w0 where
    "w0 = (case rid_opt of None \<Rightarrow> log_call (TokenUrlsafe ID_LENGTH) w | Some r \<Rightarrow> w)"
  define w2 where "w2 = imul a (init_noise_sigma p (scheduler w)) w0"
  define ts where "ts = timesteps p (scheduler w)"
  have s0: "scheduler w0 = scheduler w" by (simp add: w0_def split: option.splits)
  have s2: "scheduler w2 = scheduler w" by (simp add: w2_def s0)
  obtain els1 r w3 where d: "denoise p rid g emb kw (zip [0..<length ts] ts) a w2 = (els1, r, w3)"
    by (cases "denoise p rid g emb kw (zip [0..<length ts] ts) a w2") auto
  from denoise_states [OF d] obtain sts where
    sts: "els1 = map State sts" "\<forall>st \<in> set sts. run_id st = rid"
      "map step_index sts = map (\<lambda>it. int (fst it)) (take (length sts) (zip [0..<length ts] ts))"
      "(case r of Inr b \<Rightarrow> length sts = length (zip [0..<length ts] ts)
               | Inl e \<Rightarrow> length sts < length (zip [0..<length ts] ts))"
    by blast
  have len: "length sts \<le> length ts" using sts(4) by (cases r) auto
  have "map (\<lambda>it. int (fst it)) (take (length sts) (zip [0..<length ts] ts))
          = map int (map fst (take (length sts) (zip [0..<length ts] ts)))"
    by simp
  also have "map fst (take (length sts) (zip [0..<length ts] ts))
          = take (length sts) (map fst (zip [0..<length ts] ts))"
    by (rule take_map [symmetric])
  also have "map fst (zip [0..<length ts] ts) = [0..<length ts]" by simp
  also have "take (length sts) [0..<length ts] = [0..<length sts]"
    using len by (simp add: take_upt)
  finally have idx: "map step_index sts = map int [0..<length sts]" using sts(3) by simp
  show thesis
  proof (rule that [of rid w2 sts r w3])
    show "rid = (case rid_opt of None \<Rightarrow> token_urlsafe p ID_LENGTH | Some r \<Rightarrow> r)"
      by (simp add: rid_def)
    show "w2 = imul a (init_noise_sigma p (scheduler w))
            (case rid_opt of None \<Rightarrow> log_call (TokenUrlsafe ID_LENGTH) w | Some r \<Rightarrow> w)"
      by (simp add: w2_def w0_def)
    show "denoise p rid g emb kw
       (zip [0..<length (timesteps p (scheduler w))] (timesteps p (scheduler w))) a w2
       = (map State sts, r, w3)"
      using d sts(1) by (simp add: ts_def)
    show "\<forall>st \<in> set sts. run_id st = rid" by (rule sts(2))
    show "map step_index sts = map int [0..<length sts]" by (rule idx)
    show "length sts \<le> length (timesteps p (scheduler w))" using len by (simp add: ts_def)
    show "(\<exists>e. r = Inl e \<and> err = Some e \<and> w1 = w3
          \<and> length sts < length (timesteps p (scheduler w))
          \<and> els = State \<lparr>run_id = rid, step_index = - 1,
                           timestep = num_train_timesteps p (scheduler w), latents = a,
                           predicted_original = None\<rparr> # map State sts)
     \<or> (\<exists>b out. r = Inr b \<and> err = None
          \<and> length sts = length (timesteps p (scheduler w))
          \<and> (out, w1) = check_for_safety p
                \<lparr>images = fst (decode_to_image p b (log_call CudaEmptyCache w3)),
                 nsfw_content_detected = []\<rparr>
                (snd (decode_to_image p b (log_call CudaEmptyCache w3)))
          \<and> els = State \<lparr>run_id = rid, step_index = - 1,
                           timestep = num_train_timesteps p (scheduler w), latents = a,
                           predicted_original = None\<rparr> # map State sts @ [Output out])"
    proof (cases r)
      case (Inl e)
      with run d sts(1,4) show ?thesis
        unfolding generate_from_embeddings_def
        by (cases rid_opt) (auto simp: Let_def rid_def w0_def w2_def ts_def)
    next
      case (Inr b)
      with run d sts(1,4) show ?thesis
        unfolding generate_from_embeddings_def
        by (cases rid_opt) (auto simp: Let_def rid_def w0_def w2_def ts_def split: prod.splits)
    qed
  qed
qed

section \<open>What each operation adds to the record of calls\<close>

lemma new_calls_append [simp]:
  "calls w1 = calls w @ cs \<Longrightarrow> new_calls w w1 = cs"
  by (simp add: new_calls_def)

lemma check_for_safety_eq:
  "check_for_safety p out w =
     (case feature_extractor p of
        None \<Rightarrow> (out, w)
      | Some extract \<Rightarrow>
          (case safety_checker p of
             None \<Rightarrow> (out, w)
           | Some checker \<Rightarrow>
               (\<lparr>images = fst (checker (images out) (extract (images out))),
                 nsfw_content_detected = snd (checker (images out) (extract (images out)))\<rparr>,
                w\<lparr>calls := calls w @ [FeatureExtractor (images out),
                                      SafetyChecker (images out) (extract (images out))]\<rparr>)))"
  by (simp add: check_for_safety_def Let_def log_call_def split: option.splits prod.splits)

lemma check_for_safety_calls:
  "check_for_safety p out w = (out1, w1) \<Longrightarrow>
     \<exists>cs. calls w1 = calls w @ cs
        \<and> list_all (\<lambda>c. (\<exists>x. c = FeatureExtractor x) \<or> (\<exists>x y. c = SafetyChecker x y)) cs"
  by (auto simp: check_for_safety_eq split: option.splits)

lemma step_calls:
  "step p t a g emb kw w = (r, w1) \<Longrightarrow>
     \<exists>x y. calls w1 = calls w @ [ScaleModelInput x t, Unet y t emb]
              @ (case r of Inl e \<Rightarrow> []
                 | Inr out \<Rightarrow> [SchedulerStep (projr (combine g (unet p y t emb))) t
                                  (heap w ! a) kw])"
  by (auto simp: step_def Let_def call_scale_model_input_def call_scheduler_step_def
           split: prod.splits sum.splits)

lemma denoise_calls:
  "denoise p rid g emb kw its a w = (els, r, w1) \<Longrightarrow>
     \<exists>cs. calls w1 = calls w @ cs \<and> list_all loop_call cs"
proof (induction its arbitrary: a w els r w1)
  case Nil
  then show ?case by simp
next
  case (Cons it its)
  obtain i t where it: "it = (i, t)" by (cases it)
  obtain so w2 where st: "step p t a g emb kw w = (so, w2)"
    by (cases "step p t a g emb kw w")
  from step_calls [OF st] obtain cs2 where
    c2: "calls w2 = calls w @ cs2" "list_all loop_call cs2"
    by (cases so) auto
  show ?case
  proof (cases so)
    case (Inl e)
    with Cons.prems st it c2 show ?thesis by auto
  next
    case (Inr out)
    obtain a1 w3 where al: "alloc (prev_sample out) w2 = (a1, w3)"
      by (cases "alloc (prev_sample out) w2")
    obtain els1 r1 w4 where d: "denoise p rid g emb kw its a1 w3 = (els1, r1, w4)"
      by (cases "denoise p rid g emb kw its a1 w3") auto
    from Cons.IH [OF d] obtain cs4 where
      c4: "calls w4 = calls w3 @ cs4" "list_all loop_call cs4" by blast
    from alloc_fields [OF al] have "calls w3 = calls w2" by simp
    moreover from Cons.prems st it Inr al d have "w1 = w4" by simp
    ultimately have "calls w1 = calls w @ (cs2 @ cs4)" using c2 c4 by simp
    moreover have "list_all loop_call (cs2 @ cs4)" using c2 c4 by simp
    ultimately show ?thesis by blast
  qed
qed

lemma loop_calls_no_token:
  "list_all loop_call cs \<Longrightarrow> filter is_TokenUrlsafe cs = []"
proof (induction cs)
  case Nil
  then show ?case by simp
next
  case (Cons c cs)
  then show ?case by (cases c) simp_all
qed

lemma generate_from_embeddings_calls:
  assumes run: "generate_from_embeddings p a emb g rid_opt kw w = (els, err, w1)"
  shows "\<exists>cs ds. calls w1 =
            calls w @ (case rid_opt of None \<Rightarrow> [TokenUrlsafe ID_LENGTH] | Some r \<Rightarrow> [])
              @ cs @ ds
          \<and> list_all loop_call cs
          \<and> list_all (\<lambda>c. c = CudaEmptyCache \<or> (\<exists>x. c = VaeDecode x)
                \<or> (\<exists>x. c = FeatureExtractor x) \<or> (\<exists>x y. c = SafetyChecker x y)) ds"
proof -
  from run obtain sts r w2 w3 rid where
    w2: "w2 = imul a (init_noise_sigma p (scheduler w))
            (case rid_opt of None \<Rightarrow> log_call (TokenUrlsafe ID_LENGTH) w | Some r \<Rightarrow> w)"
    and d: "denoise p rid g emb kw
       (zip [0..<length (timesteps p (scheduler w))] (timesteps p (scheduler w))) a w2
       = (map State sts, r, w3)"
    and cases: "(\<exists>e. r = Inl e \<and> err = Some e \<and> w1 = w3
          \<and> length sts < length (timesteps p (scheduler w))
          \<and> els = State \<lparr>run_id = rid, step_index = - 1,
                           timestep = num_train_timesteps p (scheduler w), latents = a,
                           predicted_original = None\<rparr> # map State sts)
     \<or> (\<exists>b out. r = Inr b \<and> err = None
          \<and> length sts = length (timesteps p (scheduler w))
          \<and> (out, w1) = check_for_safety p
                \<lparr>images = fst (decode_to_image p b (log_call CudaEmptyCache w3)),
                 nsfw_content_detected = []\<rparr>
                (snd (decode_to_image p b (log_call CudaEmptyCache w3)))
          \<and> els = State \<lparr>run_id = rid, step_index = - 1,
                           timestep = num_train_timesteps p (scheduler w), latents = a,
                           predicted_original = None\<rparr> # map State sts @ [Output out])"
    by (rule generate_from_embeddings_cases)
  let ?tok = "case rid_opt of None \<Rightarrow> [TokenUrlsafe ID_LENGTH] | Some r \<Rightarrow> []"
  let ?tail = "\<lambda>c. c = CudaEmptyCache \<or> (\<exists>x. c = VaeDecode x)
                \<or> (\<exists>x. c = FeatureExtractor x) \<or> (\<exists>x y. c = SafetyChecker x y)"
  have c2: "calls w2 = calls w @ ?tok" by (simp add: w2 split: option.splits)
  from denoise_calls [OF d] obtain cs where
    c3: "calls w3 = calls w2 @ cs" "list_all loop_call cs" by blast
  from cases consider
    (raised) "w1 = w3"
    | (finished) b out where "(out, w1) = check_for_safety p
                \<lparr>images = fst (decode_to_image p b (log_call CudaEmptyCache w3)),
                 nsfw_content_detected = []\<rparr>
                (snd (decode_to_image p b (log_call CudaEmptyCache w3)))"
    by blast
  then show ?thesis
  proof cases
    case raised
    then have "calls w1 = calls w @ ?tok @ cs @ []" using c2 c3 by simp
    moreover have "list_all ?tail []" by simp
    ultimately show ?thesis using c3(2) by blast
  next
    case finished
    from decode_to_image_fields [of p b "log_call CudaEmptyCache w3"
            "fst (decode_to_image p b (log_call CudaEmptyCache w3))"
            "snd (decode_to_image p b (log_call CudaEmptyCache w3))"]
    obtain x where c5: "calls (snd (decode_to_image p b (log_call CudaEmptyCache w3)))
                          = calls w3 @ [CudaEmptyCache, VaeDecode x]"
      by auto
    from check_for_safety_calls [OF finished [symmetric]] obtain es where
      c6: "calls w1 = calls (snd (decode_to_image p b (log_call CudaEmptyCache w3))) @ es"
        "list_all (\<lambda>c. (\<exists>x. c = FeatureExtractor x) \<or> (\<exists>x y. c = SafetyChecker x y)) es"
      by blast
    have "calls w1 = calls w @ ?tok @ cs @ ([CudaEmptyCache, VaeDecode x] @ es)"
      using c2 c3 c5 c6 by simp
    moreover have "list_all ?tail ([CudaEmptyCache, VaeDecode x] @ es)"
      using c6(2) by (auto simp: list_all_iff)
    ultimately show ?thesis using c3(2) by blast
  qed
qed

lemma generate_cases:
  assumes run: "generate p prompt opposing_prompt height width n g generator latents_opt
                  rid_opt kw w = (els, err, w1)"
  obtains (invalid) "els = []" "err = Some (ValueError_divisible height width)" "w1 = w"
        "height mod 8 \<noteq> 0 \<or> width mod 8 \<noteq> 0"
    | (rejected) e emb w0 w2 where "els = []" "err = Some e"
        "height mod 8 = 0" "width mod 8 = 0"
        "get_text_embeddings p prompt opposing_prompt (1 < g)
           (case prompt of Single s \<Rightarrow> 1 | Batch ps \<Rightarrow> length ps) w = (emb, w0)"
        "w2 = log_call (SetTimesteps n) (w0\<lparr>scheduler := set_timesteps p n (scheduler w0)\<rparr>)"
        "prepare_latents p latents_opt (case prompt of Single s \<Rightarrow> 1 | Batch ps \<Rightarrow> length ps)
           height width generator (unet_dtype p) w2 = (Inl e, w1)"
    | (looped) a emb w0 w2 w3 where
        "height mod 8 = 0" "width mod 8 = 0"
        "get_text_embeddings p prompt opposing_prompt (1 < g)
           (case prompt of Single s \<Rightarrow> 1 | Batch ps \<Rightarrow> length ps) w = (emb, w0)"
        "w2 = log_call (SetTimesteps n) (w0\<lparr>scheduler := set_timesteps p n (scheduler w0)\<rparr>)"
        "prepare_latents p latents_opt (case prompt of Single s \<Rightarrow> 1 | Batch ps \<Rightarrow> length ps)
           height width generator (unet_dtype p) w2 = (Inr a, w3)"
        "generate_from_embeddings p a (to_device emb (unet_device p)) g rid_opt kw w3
           = (els, err, w1)"
proof (cases "height mod 8 \<noteq> 0 \<or> width mod 8 \<noteq> 0")
  case True
  with run invalid show thesis by (simp add: generate_def)
next
  case False
  let ?bs = "case prompt of Single s \<Rightarrow> 1 | Batch ps \<Rightarrow> length ps"
  obtain emb w0 where te: "get_text_embeddings p prompt opposing_prompt (1 < g) ?bs w = (emb, w0)"
    by (cases "get_text_embeddings p prompt opposing_prompt (1 < g) ?bs w")
  define w2 where
    "w2 = log_call (SetTimesteps n) (w0\<lparr>scheduler := set_timesteps p n (scheduler w0)\<rparr>)"
  obtain r w3 where pl: "prepare_latents p latents_opt ?bs height width generator
                            (unet_dtype p) w2 = (r, w3)"
    by (cases "prepare_latents p latents_opt ?bs height width generator (unet_dtype p) w2")
  show thesis
  proof (cases r)
    case (Inl e)
    with run False te pl have "els = []" "err = Some e" "w1 = w3"
      by (simp_all add: generate_def Let_def w2_def)
    with rejected [of e emb w0 w2] False te pl Inl show thesis by (simp add: w2_def)
  next
    case (Inr a)
    with run False te pl
    have "generate_from_embeddings p a (to_device emb (unet_device p)) g rid_opt kw w3
            = (els, err, w1)"
      by (simp add: generate_def Let_def w2_def)
    with looped [of emb w0 w2 a w3] False te pl Inr show thesis by (simp add: w2_def)
  qed
qed

section \<open>The calls of a run without guidance\<close>

lemma conditional_only_quiet:
  "list_all (\<lambda>c. \<forall>noise t x kw. c \<noteq> SchedulerStep noise t x kw) cs \<Longrightarrow>
     conditional_only p emb before cs"
proof (induction cs arbitrary: before)
  case Nil
  then show ?case by simp
next
  case (Cons c cs)
  then show ?case by (cases c) simp_all
qed

lemma conditional_only_append:
  "conditional_only p emb before (xs @ ys) =
     (conditional_only p emb before xs
      \<and> conditional_only p emb (if xs = [] then before else Some (last xs)) ys)"
proof (induction xs arbitrary: before)
  case Nil
  then show ?case by simp
next
  case (Cons c cs)
  then show ?case by (cases c) auto
qed

lemma prepare_latents_calls:
  "prepare_latents p latents_opt batch_size height width generator dt w = (r, w1) \<Longrightarrow>
     \<exists>cs. calls w1 = calls w @ cs \<and> list_all (\<lambda>c. \<exists>sh. c = Randn sh) cs"
  by (cases latents_opt)
     (auto simp: prepare_latents_def Let_def alloc_def split: sum.splits if_splits)

lemma denoise_unguided_calls:
  "\<not> 1 < g \<Longrightarrow> denoise p rid g emb kw its a w = (els, r, w1) \<Longrightarrow>
     \<exists>cs. calls w1 = calls w @ cs \<and> (\<forall>before. conditional_only p emb before cs)"
proof (induction its arbitrary: a w els r w1)
  case Nil
  then show ?case by simp
next
  case (Cons it its)
  obtain i t where it: "it = (i, t)" by (cases it)
  define x where "x = heap w ! a"
  define y where "y = fst (scale_model_input p x t (scheduler w))"
  define s1 where "s1 = snd (scale_model_input p x t (scheduler w))"
  define noise where "noise = unet p y t emb"
  define out where "out = fst (scheduler_step p noise t x kw s1)"
  define w2 where
    "w2 = w\<lparr>scheduler := snd (scheduler_step p noise t x kw s1),
             calls := calls w @ [ScaleModelInput x t, Unet y t emb, SchedulerStep noise t x kw]\<rparr>"
  have st: "step p t a g emb kw w = (Inr out, w2)"
    using step_unguided [OF Cons.prems(1), of p t a emb kw w]
    by (simp add: Let_def x_def y_def s1_def noise_def out_def w2_def)
  obtain a1 w3 where al: "alloc (prev_sample out) w2 = (a1, w3)"
    by (cases "alloc (prev_sample out) w2")
  obtain els1 r1 w4 where d: "denoise p rid g emb kw its a1 w3 = (els1, r1, w4)"
    by (cases "denoise p rid g emb kw its a1 w3") auto
  from Cons.IH [OF Cons.prems(1) d] obtain cs where
    c4: "calls w4 = calls w3 @ cs" "\<forall>before. conditional_only p emb before cs" by blast
  from alloc_fields [OF al] have c3: "calls w3 = calls w2" by simp
  from Cons.prems(2) st it al d have "w1 = w4" by simp
  then have "calls w1 = calls w @ ([ScaleModelInput x t, Unet y t emb,
                                   SchedulerStep noise t x kw] @ cs)"
    using c3 c4 by (simp add: w2_def)
  moreover have "conditional_only p emb before
                   ([ScaleModelInput x t, Unet y t emb, SchedulerStep noise t x kw] @ cs)"
    for before
    using c4(2) by (simp add: noise_def)
  ultimately show ?case by blast
qed

lemma generate_from_embeddings_unguided_calls:
  assumes g: "\<not> 1 < g"
    and run: "generate_from_embeddings p a emb g rid_opt kw w = (els, err, w1)"
  shows "\<exists>cs. calls w1 = calls w @ cs
           \<and> (\<forall>before. conditional_only p emb before cs)
           \<and> filter is_TextEncoder cs = []"
    and "err = None"
proof -
  from run obtain sts r w2 w3 rid where
    w2: "w2 = imul a (init_noise_sigma p (scheduler w))
            (case rid_opt of None \<Rightarrow> log_call (TokenUrlsafe ID_LENGTH) w | Some r \<Rightarrow> w)"
    and d: "denoise p rid g emb kw
       (zip [0..<length (timesteps p (scheduler w))] (timesteps p (scheduler w))) a w2
       = (map State sts, r, w3)"
    and cases: "(\<exists>e. r = Inl e \<and> err = Some e \<and> w1 = w3
          \<and> length sts < length (timesteps p (scheduler w))
          \<and> els = State \<lparr>run_id = rid, step_index = - 1,
                           timestep = num_train_timesteps p (scheduler w), latents = a,
                           predicted_original = None\<rparr> # map State sts)
     \<or> (\<exists>b out. r = Inr b \<and> err = None
          \<and> length sts = length (timesteps p (scheduler w))
          \<and> (out, w1) = check_for_safety p
                \<lparr>images = fst (decode_to_image p b (log_call CudaEmptyCache w3)),
                 nsfw_content_detected = []\<rparr>
                (snd (decode_to_image p b (log_call CudaEmptyCache w3)))
          \<and> els = State \<lparr>run_id = rid, step_index = - 1,
                           timestep = num_train_timesteps p (scheduler w), latents = a,
                           predicted_original = None\<rparr> # map State sts @ [Output out])"
    by (rule generate_from_embeddings_cases)
  from denoise_unguided_total [OF g d] obtain b where r: "r = Inr b" by blast
  with cases show "err = None" by auto
  from cases r obtain out where chk0: "(out, w1) = check_for_safety p
                \<lparr>images = fst (decode_to_image p b (log_call CudaEmptyCache w3)),
                 nsfw_content_detected = []\<rparr>
                (snd (decode_to_image p b (log_call CudaEmptyCache w3)))"
    by auto
  note chk = chk0 [symmetric]
  define tok where
    "tok = (case rid_opt of None \<Rightarrow> [TokenUrlsafe ID_LENGTH] | Some r \<Rightarrow> [])"
  have c2: "calls w2 = calls w @ tok" by (simp add: w2 tok_def split: option.splits)
  have tok: "conditional_only p emb before tok" "filter is_TextEncoder tok = []" for before
    by (cases rid_opt; simp add: tok_def)+
  from denoise_unguided_calls [OF g d] obtain cs where
    c3: "calls w3 = calls w2 @ cs" "\<forall>before. conditional_only p emb before cs" by blast
  from denoise_calls [OF d] c3(1) have lc: "list_all loop_call cs" by auto
  have enc: "filter is_TextEncoder cs = []"
    using lc
  proof (induction cs)
    case Nil
    then show ?case by simp
  next
    case (Cons c cs)
    then show ?case by (cases c) simp_all
  qed
  from decode_to_image_fields [of p b "log_call CudaEmptyCache w3"
            "fst (decode_to_image p b (log_call CudaEmptyCache w3))"
            "snd (decode_to_image p b (log_call CudaEmptyCache w3))"]
  obtain x where c5: "calls (snd (decode_to_image p b (log_call CudaEmptyCache w3)))
                          = calls w3 @ [CudaEmptyCache, VaeDecode x]"
    by auto
  from check_for_safety_calls [OF chk] obtain es where
    c6: "calls w1 = calls (snd (decode_to_image p b (log_call CudaEmptyCache w3))) @ es"
      "list_all (\<lambda>c. (\<exists>x. c = FeatureExtractor x) \<or> (\<exists>x y. c = SafetyChecker x y)) es"
    by blast
  define ds where "ds = [CudaEmptyCache, VaeDecode x] @ es"
  have quiet: "list_all (\<lambda>c. \<forall>noise t x kw. c \<noteq> SchedulerStep noise t x kw) ds"
    using c6(2) by (auto simp: ds_def list_all_iff)
  have denc: "filter is_TextEncoder ds = []"
    using c6(2) by (auto simp: ds_def list_all_iff filter_empty_conv)
  have all: "calls w1 = calls w @ (tok @ cs @ ds)"
    using c2 c3(1) c5 c6(1) by (simp add: ds_def)
  have dq: "conditional_only p emb before ds" for before
    by (rule conditional_only_quiet [OF quiet])
  have "conditional_only p emb before (tok @ cs @ ds)" for before
    using c3(2) dq tok(1) by (simp add: conditional_only_append)
  moreover have "filter is_TextEncoder (tok @ cs @ ds) = []"
    using tok(2) enc denc by simp
  ultimately show "\<exists>cs. calls w1 = calls w @ cs
           \<and> (\<forall>before. conditional_only p emb before cs)
           \<and> filter is_TextEncoder cs = []"
    using all by blast
qed

section \<open>The caller's latents during the loop\<close>

lemma generate_from_embeddings_latents:
  assumes run: "generate_from_embeddings p a emb g rid_opt kw w = (els, err, w1)"
    and a: "a < length (heap w)"
  shows "heap w1 ! a = tensor_mul_scalar (heap w ! a) (init_noise_sigma p (scheduler w))"
    and "\<exists>st. hd els = State st \<and> step_index st = - 1 \<and> latents st = a"
    and "els \<noteq> []"
proof -
  from run obtain sts r w2 w3 rid where
    w2: "w2 = imul a (init_noise_sigma p (scheduler w))
            (case rid_opt of None \<Rightarrow> log_call (TokenUrlsafe ID_LENGTH) w | Some r \<Rightarrow> w)"
    and d: "denoise p rid g emb kw
       (zip [0..<length (timesteps p (scheduler w))] (timesteps p (scheduler w))) a w2
       = (map State sts, r, w3)"
    and cases: "(\<exists>e. r = Inl e \<and> err = Some e \<and> w1 = w3
          \<and> length sts < length (timesteps p (scheduler w))
          \<and> els = State \<lparr>run_id = rid, step_index = - 1,
                           timestep = num_train_timesteps p (scheduler w), latents = a,
                           predicted_original = None\<rparr> # map State sts)
     \<or> (\<exists>b out. r = Inr b \<and> err = None
          \<and> length sts = length (timesteps p (scheduler w))
          \<and> (out, w1) = check_for_safety p
                \<lparr>images = fst (decode_to_image p b (log_call CudaEmptyCache w3)),
                 nsfw_content_detected = []\<rparr>
                (snd (decode_to_image p b (log_call CudaEmptyCache w3)))
          \<and> els = State \<lparr>run_id = rid, step_index = - 1,
                           timestep = num_train_timesteps p (scheduler w), latents = a,
                           predicted_original = None\<rparr> # map State sts @ [Output out])"
    by (rule generate_from_embeddings_cases)
  from cases show "\<exists>st. hd els = State st \<and> step_index st = - 1 \<and> latents st = a"
    by auto
  from cases show "els \<noteq> []" by auto
  have h2: "heap w2 ! a = tensor_mul_scalar (heap w ! a) (init_noise_sigma p (scheduler w))"
    "a < length (heap w2)"
    using a by (simp_all add: w2 split: option.splits)
  from denoise_heap [OF d] obtain ys where "heap w3 = heap w2 @ ys" by blast
  then have h3: "heap w3 ! a = heap w2 ! a" using h2(2) by (simp add: nth_append)
  have "heap w1 = heap w3"
  proof -
    from cases consider "w1 = w3"
      | b out where "(out, w1) = check_for_safety p
                \<lparr>images = fst (decode_to_image p b (log_call CudaEmptyCache w3)),
                 nsfw_content_detected = []\<rparr>
                (snd (decode_to_image p b (log_call CudaEmptyCache w3)))"
      by blast
    then show ?thesis
    proof cases
      case 1
      then show ?thesis by simp
    next
      case 2
      from check_for_safety_heap [OF 2 [symmetric]]
        decode_to_image_fields [of p b "log_call CudaEmptyCache w3"
          "fst (decode_to_image p b (log_call CudaEmptyCache w3))"
          "snd (decode_to_image p b (log_call CudaEmptyCache w3))"]
      show ?thesis by simp
    qed
  qed
  with h3 h2(1)
  show "heap w1 ! a = tensor_mul_scalar (heap w ! a) (init_noise_sigma p (scheduler w))"
    by simp
qed

section \<open>Runs of the small pipeline\<close>

lemmas run_defs =
  generate_def generate_from_embeddings_def get_text_embeddings_def prepare_latents_def
  step_def combine_def guidance_def chunk2_def elementwise_def cat_def to_device_def
  call_scale_model_input_def call_scheduler_step_def decode_to_image_def
  check_for_safety_def alloc_def imul_def log_call_def tensor_mul_scalar_def
  scalar_mul_tensor_def py_int_def ID_LENGTH_def opposing_or_blank_def randn_def
  Let_def

lemmas demo_defs =
  demo_def demo_checked_def demo_tokens_def demo_encoder_def demo_unet_def
  demo_scheduler_step_def demo_timesteps_def demo_world_def unit_latent_def
  demo_generator_def upt_rec

lemma demo_loop_run:
  "generate_from_embeddings demo 0 (demo_encoder [[5]]) 1 None [] (demo_world\<lparr>scheduler := 2\<rparr>)
     = ([State \<lparr>run_id = ''q1w2e3r4t5y'', step_index = - 1, timestep = 1000, latents = 0,
                 predicted_original = None\<rparr>,
         State \<lparr>run_id = ''q1w2e3r4t5y'', step_index = 0, timestep = 1, latents = 1,
                 predicted_original = None\<rparr>,
         State \<lparr>run_id = ''q1w2e3r4t5y'', step_index = 1, timestep = 0, latents = 2,
                 predicted_original = None\<rparr>,
         Output \<lparr>images = unit_latent, nsfw_content_detected = []\<rparr>],
        None,
        \<lparr>heap = [unit_latent\<lparr>rows := [[2]]\<rparr>, unit_latent\<lparr>rows := [[- 8]]\<rparr>,
                 unit_latent\<lparr>rows := [[32]]\<rparr>],
         scheduler = 2,
         calls = [TokenUrlsafe 8,
                  ScaleModelInput (unit_latent\<lparr>rows := [[2]]\<rparr>) 1,
                  Unet (unit_latent\<lparr>rows := [[2]]\<rparr>) 1 (demo_encoder [[5]]),
                  SchedulerStep (unit_latent\<lparr>rows := [[10]]\<rparr>) 1
                    (unit_latent\<lparr>rows := [[2]]\<rparr>) [],
                  ScaleModelInput (unit_latent\<lparr>rows := [[- 8]]\<rparr>) 0,
                  Unet (unit_latent\<lparr>rows := [[- 8]]\<rparr>) 0 (demo_encoder [[5]]),
                  SchedulerStep (unit_latent\<lparr>rows := [[- 40]]\<rparr>) 0
                    (unit_latent\<lparr>rows := [[- 8]]\<rparr>) [],
                  CudaEmptyCache,
                  VaeDecode (unit_latent\<lparr>rows := [[640000 / 3643]]\<rparr>)]\<rparr>)"
  by (simp add: run_defs demo_defs)

lemma demo_checked_loop_run:
  "generate_from_embeddings demo_checked 0 (demo_encoder [[1]]) 1 (Some ''run'') []
       (demo_world\<lparr>scheduler := 1\<rparr>)
     = ([State \<lparr>run_id = ''run'', step_index = - 1, timestep = 1000, latents = 0,
                 predicted_original = None\<rparr>,
         State \<lparr>run_id = ''run'', step_index = 0, timestep = 0, latents = 1,
                 predicted_original = None\<rparr>,
         Output \<lparr>images = unit_latent\<lparr>rows := [[1 / 2]]\<rparr>,
                  nsfw_content_detected = [True]\<rparr>],
        None,
        \<lparr>heap = [unit_latent\<lparr>rows := [[2]]\<rparr>, unit_latent\<lparr>rows := [[0]]\<rparr>],
         scheduler = 1,
         calls = [ScaleModelInput (unit_latent\<lparr>rows := [[2]]\<rparr>) 0,
                  Unet (unit_latent\<lparr>rows := [[2]]\<rparr>) 0 (demo_encoder [[1]]),
                  SchedulerStep (unit_latent\<lparr>rows := [[2]]\<rparr>) 0
                    (unit_latent\<lparr>rows := [[2]]\<rparr>) [],
                  CudaEmptyCache,
                  VaeDecode (unit_latent\<lparr>rows := [[0]]\<rparr>),
                  FeatureExtractor (unit_latent\<lparr>rows := [[1 / 2]]\<rparr>),
                  SafetyChecker (unit_latent\<lparr>rows := [[1 / 2]]\<rparr>)
                    (unit_latent\<lparr>rows := [[1 / 2]]\<rparr>)]\<rparr>)"
  by (simp add: run_defs demo_defs)

lemma demo_generate_unguided_run:
  "generate demo (Single ''a cat'') None 8 8 2 1 demo_generator (Some 0) None [] demo_world
     = ([State \<lparr>run_id = ''q1w2e3r4t5y'', step_index = - 1, timestep = 1000, latents = 0,
                 predicted_original = None\<rparr>,
         State \<lparr>run_id = ''q1w2e3r4t5y'', step_index = 0, timestep = 1, latents = 1,
                 predicted_original = None\<rparr>,
         State \<lparr>run_id = ''q1w2e3r4t5y'', step_index = 1, timestep = 0, latents = 2,
                 predicted_original = None\<rparr>,
         Output \<lparr>images = unit_latent, nsfw_content_detected = []\<rparr>],
        None,
        \<lparr>heap = [unit_latent\<lparr>rows := [[4]]\<rparr>, unit_latent\<lparr>rows := [[- 16]]\<rparr>,
                 unit_latent\<lparr>rows := [[64]]\<rparr>],
         scheduler = 2,
         calls = [Tokenizer (Single ''a cat''), TextEncoder [[5]], SetTimesteps 2,
                  TokenUrlsafe 8,
                  ScaleModelInput (unit_latent\<lparr>rows := [[4]]\<rparr>) 1,
                  Unet (unit_latent\<lparr>rows := [[4]]\<rparr>) 1
                    (to_device (demo_encoder [[5]]) ''cpu''),
                  SchedulerStep (unit_latent\<lparr>rows := [[20]]\<rparr>) 1
                    (unit_latent\<lparr>rows := [[4]]\<rparr>) [],
                  ScaleModelInput (unit_latent\<lparr>rows := [[- 16]]\<rparr>) 0,
                  Unet (unit_latent\<lparr>rows := [[- 16]]\<rparr>) 0
                    (to_device (demo_encoder [[5]]) ''cpu''),
                  SchedulerStep (unit_latent\<lparr>rows := [[- 80]]\<rparr>) 0
                    (unit_latent\<lparr>rows := [[- 16]]\<rparr>) [],
                  CudaEmptyCache,
                  VaeDecode (unit_latent\<lparr>rows := [[1280000 / 3643]]\<rparr>)]\<rparr>)"
  by (simp add: run_defs demo_defs)

section \<open>How often the initial latents are scaled\<close>

text \<open>
  C1. The claim is that a run started through \<open>generate\<close> multiplies the initial latents
  by the scheduler's initial sigma exactly once before the first denoising step. The
  code multiplies them in \<open>prepare_latents\<close> and again at the start of
  \<open>generate_from_embeddings\<close>. On the small pipeline, whose sigma is 2, the latents
  \<open>[[1]]\<close> (supplied by the caller, or sampled when none are supplied) are \<open>[[4]]\<close> in
  the initial state and in the first call of the scheduler and the network, where one
  scaling gives \<open>[[2]]\<close>.
\<close>

theorem generate_scales_latents_twice:
  "init_noise_sigma demo (set_timesteps demo 2 (scheduler demo_world)) = 2
   \<and> heap demo_world ! 0 = unit_latent
   \<and> tensor_mul_scalar unit_latent 2 = unit_latent\<lparr>rows := [[2]]\<rparr>
   \<and> hd (fst (generate demo (Single ''a cat'') None 8 8 2 1 demo_generator (Some 0) None []
                 demo_world))
       = State \<lparr>run_id = ''q1w2e3r4t5y'', step_index = - 1, timestep = 1000, latents = 0,
                 predicted_original = None\<rparr>
   \<and> heap (snd (snd (generate demo (Single ''a cat'') None 8 8 2 1 demo_generator (Some 0)
                       None [] demo_world))) ! 0
       = unit_latent\<lparr>rows := [[4]]\<rparr>
   \<and> calls (snd (snd (generate demo (Single ''a cat'') None 8 8 2 1 demo_generator (Some 0)
                        None [] demo_world))) ! 4
       = ScaleModelInput (unit_latent\<lparr>rows := [[4]]\<rparr>) 1
   \<and> demo_generator [1, 1, 1, 1] = [[1]]
   \<and> hd (fst (generate demo (Single ''a cat'') None 8 8 2 1 demo_generator None None []
                 demo_world))
       = State \<lparr>run_id = ''q1w2e3r4t5y'', step_index = - 1, timestep = 1000, latents = 1,
                 predicted_original = None\<rparr>
   \<and> heap (snd (snd (generate demo (Single ''a cat'') None 8 8 2 1 demo_generator None
                       None [] demo_world))) ! 1
       = unit_latent\<lparr>rows := [[4]]\<rparr>"
  by (simp add: demo_generate_unguided_run) (simp add: run_defs demo_defs)

theorem generate_scales_latents_twice_witness:
  "heap (snd (snd (generate demo (Single ''a cat'') None 8 8 2 1 demo_generator (Some 0)
                     None [] demo_world))) ! 0
     \<noteq> tensor_mul_scalar (heap demo_world ! 0)
         (init_noise_sigma demo (set_timesteps demo 2 (scheduler demo_world)))
   \<and> heap (snd (snd (generate demo (Single ''a cat'') None 8 8 2 1 demo_generator (Some 0)
                       None [] demo_world))) ! 0
     = tensor_mul_scalar
         (tensor_mul_scalar (heap demo_world ! 0)
            (init_noise_sigma demo (set_timesteps demo 2 (scheduler demo_world))))
         (init_noise_sigma demo (set_timesteps demo 2 (scheduler demo_world)))"
  using generate_scales_latents_twice by (simp add: tensor_mul_scalar_def unit_latent_def)

section \<open>The callback of the convenience entry points\<close>

lemma foldl_record_element:
  "foldl (\<lambda>seen result. record_element result seen) seen els = seen @ els"
  by (induction els arbitrary: seen) (simp_all add: record_element_def)

lemma foldl_record_states:
  "foldl (\<lambda>seen result. if is_State result then record_element result seen else seen) seen els
     = seen @ filter is_State els"
  by (induction els arbitrary: seen) (simp_all add: record_element_def)

text \<open>
  C2. The claim is that both convenience entry points run the callback once on every
  element of the sequence, the final output included. \<open>image_from_embeddings\<close> runs it
  only on intermediate states: on the small pipeline with two steps the sequence has
  four elements, the last of them the final output that the entry point returns, and the
  recording callback has seen three, none of them an output.
\<close>

theorem image_from_embeddings_callback_counterexample:
  "fst (image_from_embeddings demo 0 2 (demo_encoder [[5]]) 1 (Some record_element) None []
          demo_world [])
     = Inr (Output \<lparr>images = unit_latent, nsfw_content_detected = []\<rparr>)
   \<and> snd (snd (image_from_embeddings demo 0 2 (demo_encoder [[5]]) 1 (Some record_element)
                  None [] demo_world []))
     = [State \<lparr>run_id = ''q1w2e3r4t5y'', step_index = - 1, timestep = 1000, latents = 0,
                predicted_original = None\<rparr>,
        State \<lparr>run_id = ''q1w2e3r4t5y'', step_index = 0, timestep = 1, latents = 1,
                predicted_original = None\<rparr>,
        State \<lparr>run_id = ''q1w2e3r4t5y'', step_index = 1, timestep = 0, latents = 2,
                predicted_original = None\<rparr>]
   \<and> length (fst (generate_from_embeddings demo 0 (demo_encoder [[5]]) 1 None []
                    (log_call (SetTimesteps 2)
                       (demo_world\<lparr>scheduler := set_timesteps demo 2 (scheduler demo_world)\<rparr>))))
     = 4"
  by (simp add: image_from_embeddings_def last_result_def record_element_def run_defs
        demo_defs)

text \<open>
  C2, as the code has it. With a callback supplied, \<open>pipeline_call\<close> (the pipeline's
  \<open>__call__\<close>) runs it exactly once on every element that \<open>generate\<close> yields, in order,
  the final output included. \<open>image_from_embeddings\<close> runs it exactly once on every
  intermediate state that \<open>generate_from_embeddings\<close> yields, in order, and not on the
  final output: when the loop ends without an exception these are all the elements but
  the last.
\<close>

theorem callback_invocations:
  assumes w0: "w0 = log_call (SetTimesteps n)
                      (w\<lparr>scheduler := set_timesteps p n (scheduler w)\<rparr>)"
  shows "snd (snd (pipeline_call p prompt height width n g generator latents_opt
                     (Some record_element) kw w seen))
           = seen @ fst (generate p prompt None height width n g generator latents_opt None
                           kw w)
       \<and> snd (snd (image_from_embeddings p a n emb g (Some record_element) rid_opt kw w seen))
           = seen @ filter is_State (fst (generate_from_embeddings p a emb g rid_opt kw w0))
       \<and> (fst (snd (generate_from_embeddings p a emb g rid_opt kw w0)) = None \<longrightarrow>
            filter is_State (fst (generate_from_embeddings p a emb g rid_opt kw w0))
              = butlast (fst (generate_from_embeddings p a emb g rid_opt kw w0))
          \<and> \<not> is_State (last (fst (generate_from_embeddings p a emb g rid_opt kw w0))))"
proof -
  have one: "snd (snd (pipeline_call p prompt height width n g generator latents_opt
                     (Some record_element) kw w seen))
           = seen @ fst (generate p prompt None height width n g generator latents_opt None
                           kw w)"
    by (simp add: pipeline_call_def foldl_record_element split: prod.splits)
  have two: "snd (snd (image_from_embeddings p a n emb g (Some record_element) rid_opt kw w seen))
           = seen @ filter is_State (fst (generate_from_embeddings p a emb g rid_opt kw w0))"
    by (simp add: image_from_embeddings_def Let_def foldl_record_states w0 split: prod.splits)
  have three: "filter is_State els = butlast els \<and> \<not> is_State (last els)"
    if run: "generate_from_embeddings p a emb g rid_opt kw w0 = (els, None, w1)" for els w1
  proof -
    from run obtain sts rid out where
      els: "els = State \<lparr>run_id = rid, step_index = - 1,
                           timestep = num_train_timesteps p (scheduler w0), latents = a,
                           predicted_original = None\<rparr> # map State sts @ [Output out]"
      by (rule generate_from_embeddings_cases) auto
    have "filter is_State (map State sts) = map State sts"
      by (induction sts) simp_all
    with els show ?thesis by (simp add: butlast_append)
  qed
  have "filter is_State (fst (generate_from_embeddings p a emb g rid_opt kw w0))
              = butlast (fst (generate_from_embeddings p a emb g rid_opt kw w0))
          \<and> \<not> is_State (last (fst (generate_from_embeddings p a emb g rid_opt kw w0)))"
    if "fst (snd (generate_from_embeddings p a emb g rid_opt kw w0)) = None"
    using three [of "fst (generate_from_embeddings p a emb g rid_opt kw w0)"
                    "snd (snd (generate_from_embeddings p a emb g rid_opt kw w0))"] that
    by (metis prod.collapse)
  with one two show ?thesis by blast
qed

theorem callback_invocations_witness:
  "snd (snd (pipeline_call demo (Single ''a cat'') 8 8 2 1 demo_generator (Some 0)
               (Some record_element) [] demo_world []))
     = [] @ fst (generate demo (Single ''a cat'') None 8 8 2 1 demo_generator (Some 0) None []
                   demo_world)
   \<and> length (snd (snd (pipeline_call demo (Single ''a cat'') 8 8 2 1 demo_generator (Some 0)
                         (Some record_element) [] demo_world []))) = 4
   \<and> fst (snd (generate_from_embeddings demo 0 (demo_encoder [[5]]) 1 None []
                 (log_call (SetTimesteps 2)
                    (demo_world\<lparr>scheduler := set_timesteps demo 2 (scheduler demo_world)\<rparr>))))
     = None
   \<and> snd (snd (image_from_embeddings demo 0 2 (demo_encoder [[5]]) 1 (Some record_element)
                  None [] demo_world []))
     = [] @ butlast (fst (generate_from_embeddings demo 0 (demo_encoder [[5]]) 1 None []
                    (log_call (SetTimesteps 2)
                       (demo_world\<lparr>scheduler := set_timesteps demo 2 (scheduler demo_world)\<rparr>))))"
proof -
  have none: "fst (snd (generate_from_embeddings demo 0 (demo_encoder [[5]]) 1 None []
                 (log_call (SetTimesteps 2)
                    (demo_world\<lparr>scheduler := set_timesteps demo 2 (scheduler demo_world)\<rparr>))))
     = None"
    by (simp add: run_defs demo_defs)
  from callback_invocations [OF refl, of demo "Single ''a cat''" 8 8 2 1 demo_generator
         "Some 0" "[]" demo_world "[]" 0 "demo_encoder [[5]]" None]
  show ?thesis
    using none by (simp add: demo_generate_unguided_run)
qed

section \<open>The sequence of states\<close>

text \<open>
  C3. Let the scheduler's timestep schedule have \<open>N\<close> entries when the generation loop
  \<open>generate_from_embeddings\<close> starts. A loop that ends without an exception has yielded
  exactly \<open>N + 2\<close> elements: first the initial state, with step index \<open>- 1\<close> and the
  reference to the caller's latents, which then hold the scaled initial values; then
  \<open>N\<close> states with the step indices \<open>0, 1, \<dots>, N - 1\<close> in this order; last one final
  output. The loop cannot raise when guidance is off (scale at most 1); a loop that a
  step's exception ended has yielded at most \<open>N\<close> elements. This holds for every \<open>N\<close>,
  so for every \<open>N \<ge> 1\<close>.
\<close>

theorem state_sequence:
  assumes run: "generate_from_embeddings p a emb g rid_opt kw w = (els, err, w1)"
      and n: "length (timesteps p (scheduler w)) = N"
  shows "(err = None \<longrightarrow>
            length els = N + 2
          \<and> (\<exists>st. els ! 0 = State st \<and> step_index st = - 1 \<and> latents st = a)
          \<and> (\<forall>i<N. \<exists>st. els ! Suc i = State st \<and> step_index st = int i)
          \<and> (\<exists>out. els ! Suc N = Output out))
       \<and> (err \<noteq> None \<longrightarrow> length els \<le> N)
       \<and> (\<not> 1 < g \<longrightarrow> err = None)
       \<and> (a < length (heap w) \<longrightarrow>
            heap w1 ! a = tensor_mul_scalar (heap w ! a) (init_noise_sigma p (scheduler w)))"
proof -
  from run obtain sts r w2 w3 rid where
    w2: "w2 = imul a (init_noise_sigma p (scheduler w))
            (case rid_opt of None \<Rightarrow> log_call (TokenUrlsafe ID_LENGTH) w | Some r \<Rightarrow> w)"
    and d: "denoise p rid g emb kw
       (zip [0..<length (timesteps p (scheduler w))] (timesteps p (scheduler w))) a w2
       = (map State sts, r, w3)"
    and idx: "map step_index sts = map int [0..<length sts]"
    and cases: "(\<exists>e. r = Inl e \<and> err = Some e \<and> w1 = w3
          \<and> length sts < length (timesteps p (scheduler w))
          \<and> els = State \<lparr>run_id = rid, step_index = - 1,
                           timestep = num_train_timesteps p (scheduler w), latents = a,
                           predicted_original = None\<rparr> # map State sts)
     \<or> (\<exists>b out. r = Inr b \<and> err = None
          \<and> length sts = length (timesteps p (scheduler w))
          \<and> (out, w1) = check_for_safety p
                \<lparr>images = fst (decode_to_image p b (log_call CudaEmptyCache w3)),
                 nsfw_content_detected = []\<rparr>
                (snd (decode_to_image p b (log_call CudaEmptyCache w3)))
          \<and> els = State \<lparr>run_id = rid, step_index = - 1,
                           timestep = num_train_timesteps p (scheduler w), latents = a,
                           predicted_original = None\<rparr> # map State sts @ [Output out])"
    by (rule generate_from_embeddings_cases)
  have index: "step_index (sts ! i) = int i" if "i < length sts" for i
  proof -
    have "step_index (sts ! i) = map step_index sts ! i" using that by simp
    also have "\<dots> = int i" using that by (simp add: idx)
    finally show ?thesis .
  qed
  have ok: "length els = N + 2
          \<and> (\<exists>st. els ! 0 = State st \<and> step_index st = - 1 \<and> latents st = a)
          \<and> (\<forall>i<N. \<exists>st. els ! Suc i = State st \<and> step_index st = int i)
          \<and> (\<exists>out. els ! Suc N = Output out)" if "err = None"
  proof -
    from cases that obtain out where
      len: "length sts = N" and
      els: "els = State \<lparr>run_id = rid, step_index = - 1,
                           timestep = num_train_timesteps p (scheduler w), latents = a,
                           predicted_original = None\<rparr> # map State sts @ [Output out]"
      using n by auto
    have "\<exists>st. els ! Suc i = State st \<and> step_index st = int i" if "i < N" for i
      using that len els index [of i] by (simp add: nth_append)
    moreover have "els ! Suc N = Output out" using len els by (simp add: nth_append)
    ultimately show ?thesis using len els by simp
  qed
  have bad: "length els \<le> N" if "err \<noteq> None"
    using cases that n by auto
  have total: "err = None" if "\<not> 1 < g"
    using denoise_unguided_total [OF that d] cases by auto
  have scaled: "heap w1 ! a = tensor_mul_scalar (heap w ! a) (init_noise_sigma p (scheduler w))"
    if a: "a < length (heap w)"
  proof -
    have h2: "heap w2 ! a = tensor_mul_scalar (heap w ! a) (init_noise_sigma p (scheduler w))"
      "a < length (heap w2)"
      using a by (simp_all add: w2 split: option.splits)
    from denoise_heap [OF d] obtain ys where "heap w3 = heap w2 @ ys" by blast
    then have h3: "heap w3 ! a = heap w2 ! a" using h2(2) by (simp add: nth_append)
    have "heap w1 = heap w3"
    proof -
      from cases consider "w1 = w3"
        | b out where "(out, w1) = check_for_safety p
                \<lparr>images = fst (decode_to_image p b (log_call CudaEmptyCache w3)),
                 nsfw_content_detected = []\<rparr>
                (snd (decode_to_image p b (log_call CudaEmptyCache w3)))"
        by blast
      then show ?thesis
      proof cases
        case 1
        then show ?thesis by simp
      next
        case 2
        from check_for_safety_heap [OF 2 [symmetric]]
          decode_to_image_fields [of p b "log_call CudaEmptyCache w3"
            "fst (decode_to_image p b (log_call CudaEmptyCache w3))"
            "snd (decode_to_image p b (log_call CudaEmptyCache w3))"]
        show ?thesis by simp
      qed
    qed
    with h3 h2(1) show ?thesis by simp
  qed
  from ok bad total scaled show ?thesis by blast
qed

theorem state_sequence_witness:
  "length (timesteps demo (scheduler (demo_world\<lparr>scheduler := 2\<rparr>))) = 2
   \<and> fst (snd (generate_from_embeddings demo 0 (demo_encoder [[5]]) 1 None []
                 (demo_world\<lparr>scheduler := 2\<rparr>))) = None
   \<and> length (fst (generate_from_embeddings demo 0 (demo_encoder [[5]]) 1 None []
                    (demo_world\<lparr>scheduler := 2\<rparr>))) = 2 + 2
   \<and> (\<exists>st. fst (generate_from_embeddings demo 0 (demo_encoder [[5]]) 1 None []
                   (demo_world\<lparr>scheduler := 2\<rparr>)) ! Suc 1 = State st \<and> step_index st = int 1)
   \<and> rows (heap (snd (snd (generate_from_embeddings demo 0 (demo_encoder [[5]]) 1 None []
                             (demo_world\<lparr>scheduler := 2\<rparr>))))
            ! 0) = [[2]]"
proof -
  have n: "length (timesteps demo (scheduler (demo_world\<lparr>scheduler := 2\<rparr>))) = 2"
    by (simp add: demo_defs)
  have a: "0 < length (heap (demo_world\<lparr>scheduler := 2\<rparr>))"
    by (simp add: demo_defs)
  have none: "fst (snd (generate_from_embeddings demo 0 (demo_encoder [[5]]) 1 None []
                 (demo_world\<lparr>scheduler := 2\<rparr>))) = None"
    by (simp add: demo_loop_run)
  from state_sequence [OF demo_loop_run n]
  show ?thesis
    using n a none
    by (simp add: demo_loop_run) (simp add: demo_defs tensor_mul_scalar_def)
qed

section \<open>The run identifier\<close>

text \<open>
  C4. Every intermediate state of a run carries the same run identifier: the one the
  caller gave or, when the caller gave none, the token that \<open>token_urlsafe\<close> returned
  for \<open>ID_LENGTH = 8\<close>. This holds for the states the loop \<open>generate_from_embeddings\<close>
  yields and for those \<open>generate\<close> yields. The loop asks for a token exactly once when
  the identifier is omitted, with length 8, and never when it is given. (That the token
  is random and URL-safe is the contract of \<open>token_urlsafe\<close>, which is not part of the
  pipeline.)
\<close>

theorem run_identifier:
  assumes rid: "rid = (case rid_opt of None \<Rightarrow> token_urlsafe p 8 | Some r \<Rightarrow> r)"
  shows "(\<forall>st. State st \<in> set (fst (generate_from_embeddings p a emb g rid_opt kw w))
              \<longrightarrow> run_id st = rid)
       \<and> (\<forall>st. State st \<in> set (fst (generate p prompt opposing_prompt height width n g
                                        generator latents_opt rid_opt kw w))
              \<longrightarrow> run_id st = rid)
       \<and> filter is_TokenUrlsafe
            (new_calls w (snd (snd (generate_from_embeddings p a emb g rid_opt kw w))))
          = (case rid_opt of None \<Rightarrow> [TokenUrlsafe 8] | Some r \<Rightarrow> [])"
proof -
  have loop: "run_id st = rid"
    if run: "generate_from_embeddings p a0 emb0 g rid_opt kw w0 = (els, err, w1)"
      and st: "State st \<in> set els" for a0 emb0 w0 els err w1 st
  proof -
    from run obtain sts rid1 where
      r1: "rid1 = (case rid_opt of None \<Rightarrow> token_urlsafe p ID_LENGTH | Some r \<Rightarrow> r)"
      and all: "\<forall>st \<in> set sts. run_id st = rid1"
      and els: "els = State \<lparr>run_id = rid1, step_index = - 1,
                           timestep = num_train_timesteps p (scheduler w0), latents = a0,
                           predicted_original = None\<rparr> # map State sts
                \<or> (\<exists>out. els = State \<lparr>run_id = rid1, step_index = - 1,
                           timestep = num_train_timesteps p (scheduler w0), latents = a0,
                           predicted_original = None\<rparr> # map State sts @ [Output out])"
      by (rule generate_from_embeddings_cases) blast
    have "rid1 = rid" by (cases rid_opt) (simp_all add: r1 rid ID_LENGTH_def)
    with els all st show ?thesis by auto
  qed
  have one: "\<forall>st. State st \<in> set (fst (generate_from_embeddings p a emb g rid_opt kw w))
              \<longrightarrow> run_id st = rid"
    using loop [of a emb w "fst (generate_from_embeddings p a emb g rid_opt kw w)"
                  "fst (snd (generate_from_embeddings p a emb g rid_opt kw w))"
                  "snd (snd (generate_from_embeddings p a emb g rid_opt kw w))"]
    by simp
  have two: "run_id st = rid"
    if "State st \<in> set (fst (generate p prompt opposing_prompt height width n g
                                        generator latents_opt rid_opt kw w))" for st
  proof -
    obtain els err w1 where run: "generate p prompt opposing_prompt height width n g
                                        generator latents_opt rid_opt kw w = (els, err, w1)"
      by (cases "generate p prompt opposing_prompt height width n g
                                        generator latents_opt rid_opt kw w") auto
    from run that have st: "State st \<in> set els" by simp
    from run show ?thesis
    proof (cases rule: generate_cases)
      case invalid
      with st show ?thesis by simp
    next
      case (rejected e emb w0 w2)
      with st show ?thesis by simp
    next
      case (looped a emb w0 w2 w3)
      from loop [OF looped(6) st] show ?thesis .
    qed
  qed
  have three: "filter is_TokenUrlsafe
            (new_calls w (snd (snd (generate_from_embeddings p a emb g rid_opt kw w))))
          = (case rid_opt of None \<Rightarrow> [TokenUrlsafe 8] | Some r \<Rightarrow> [])"
  proof -
    obtain els err w1 where run: "generate_from_embeddings p a emb g rid_opt kw w = (els, err, w1)"
      by (cases "generate_from_embeddings p a emb g rid_opt kw w") auto
    from generate_from_embeddings_calls [OF run] obtain cs ds where
      c: "calls w1 =
            calls w @ (case rid_opt of None \<Rightarrow> [TokenUrlsafe ID_LENGTH] | Some r \<Rightarrow> [])
              @ cs @ ds"
      and cs: "list_all loop_call cs"
      and ds: "list_all (\<lambda>c. c = CudaEmptyCache \<or> (\<exists>x. c = VaeDecode x)
                \<or> (\<exists>x. c = FeatureExtractor x) \<or> (\<exists>x y. c = SafetyChecker x y)) ds"
      by blast
    have "filter is_TokenUrlsafe ds = []"
      using ds by (induction ds) auto
    with loop_calls_no_token [OF cs] new_calls_append [OF c] run show ?thesis
      by (cases rid_opt) (simp_all add: ID_LENGTH_def)
  qed
  from one two three show ?thesis by blast
qed

theorem run_identifier_witness:
  "list_all (\<lambda>e. e = Output \<lparr>images = unit_latent, nsfw_content_detected = []\<rparr>
                 \<or> (\<exists>st. e = State st \<and> run_id st = token_urlsafe demo 8))
     (fst (generate_from_embeddings demo 0 (demo_encoder [[5]]) 1 None []
            (demo_world\<lparr>scheduler := 2\<rparr>)))
   \<and> State \<lparr>run_id = ''q1w2e3r4t5y'', step_index = 1, timestep = 0, latents = 2,
              predicted_original = None\<rparr>
       \<in> set (fst (generate_from_embeddings demo 0 (demo_encoder [[5]]) 1 None []
                    (demo_world\<lparr>scheduler := 2\<rparr>)))
   \<and> filter is_TokenUrlsafe
        (new_calls (demo_world\<lparr>scheduler := 2\<rparr>)
           (snd (snd (generate_from_embeddings demo 0 (demo_encoder [[5]]) 1 None []
                       (demo_world\<lparr>scheduler := 2\<rparr>)))))
      = [TokenUrlsafe 8]"
proof -
  have tok: "token_urlsafe demo 8 = ''q1w2e3r4t5y''" by (simp add: demo_def)
  from run_identifier [where rid = "token_urlsafe demo 8" and rid_opt = None and p = demo
         and a = 0 and emb = "demo_encoder [[5]]" and g = 1 and kw = "[]"
         and w = "demo_world\<lparr>scheduler := 2\<rparr>"]
  show ?thesis
    by (simp add: demo_loop_run tok)
qed

section \<open>Validation of the image size\<close>

text \<open>
  C5. When the height or the width is not divisible by 8, \<open>generate\<close> raises the
  validation error before anything else happens: no element is yielded and the world is
  the one it started from, so that no collaborator (tokenizer, encoder, network,
  scheduler, decoder) has been called. \<open>pipeline_call\<close>, which drains \<open>generate\<close>, raises the
  same error and never runs the callback.
\<close>

theorem generate_rejects_indivisible:
  assumes "height mod 8 \<noteq> 0 \<or> width mod 8 \<noteq> 0"
  shows "generate p prompt opposing_prompt height width n g generator latents_opt rid kw w
           = ([], Some (ValueError_divisible height width), w)
         \<and> pipeline_call p prompt height width n g generator latents_opt callback kw w c
           = (Inl (ValueError_divisible height width), w, c)"
  using assms by (simp add: generate_def pipeline_call_def last_result_def split: option.splits)

theorem generate_rejects_indivisible_witness:
  "(511::int) mod 8 = 7
   \<and> generate demo (Single ''a cat'') None 511 512 2 7.5 demo_generator None None [] demo_world
       = ([], Some (ValueError_divisible 511 512), demo_world)
   \<and> pipeline_call demo (Single ''a cat'') 511 512 2 7.5 demo_generator None
         (Some record_element) [] demo_world []
       = (Inl (ValueError_divisible 511 512), demo_world, [])
   \<and> (513::int) mod 8 = 1
   \<and> generate demo (Single ''a cat'') None 512 513 2 7.5 demo_generator None None [] demo_world
       = ([], Some (ValueError_divisible 512 513), demo_world)
   \<and> pipeline_call demo (Single ''a cat'') 512 513 2 7.5 demo_generator None
         (Some record_element) [] demo_world []
       = (Inl (ValueError_divisible 512 513), demo_world, [])"
proof -
  have h1: "(511::int) mod 8 \<noteq> 0 \<or> (512::int) mod 8 \<noteq> 0" by simp
  have h2: "(512::int) mod 8 \<noteq> 0 \<or> (513::int) mod 8 \<noteq> 0" by simp
  show ?thesis
    using h1 h2
      generate_rejects_indivisible [OF h1, of demo "Single ''a cat''" None 2 "7.5"
        demo_generator None None "[]" demo_world "Some record_element" "[]"]
      generate_rejects_indivisible [OF h2, of demo "Single ''a cat''" None 2 "7.5"
        demo_generator None None "[]" demo_world "Some record_element" "[]"]
    by simp
qed

section \<open>Validation of supplied latents\<close>

text \<open>
  C6. For latents the caller supplies (a reference \<open>a\<close> to a tensor of the store),
  \<open>prepare_latents\<close> first compares the tensor's shape with (batch, channels of the
  network, height div 8, width div 8) and raises the shape error when they differ; then
  it compares the tensor's device with the network's and raises the device error when
  they differ; otherwise it accepts the tensor: it returns the same reference, and the
  tensor keeps its shape (only its values are scaled). No collaborator is called and no
  tensor is created.
\<close>

theorem prepare_latents_supplied:
  assumes "a < length (heap w)"
  shows "prepare_latents p (Some a) batch_size height width generator dt w =
           (let x = heap w ! a;
                latents_shape = [int batch_size, unet_in_channels p, height div 8, width div 8]
            in if shape x \<noteq> latents_shape
               then (Inl (ValueError_shape (shape x) latents_shape), w)
               else if device x \<noteq> unet_device p
               then (Inl (ValueError_device (device x) (unet_device p)), w)
               else (Inr a, w\<lparr>heap := (heap w)
                       [a := x\<lparr>rows := map (map (\<lambda>v. v * init_noise_sigma p (scheduler w)))
                                         (rows x)\<rparr>]\<rparr>))
         \<and> length (heap (snd (prepare_latents p (Some a) batch_size height width generator dt w)))
             = length (heap w)
         \<and> shape (heap (snd (prepare_latents p (Some a) batch_size height width generator dt w)) ! a)
             = shape (heap w ! a)
         \<and> calls (snd (prepare_latents p (Some a) batch_size height width generator dt w))
             = calls w"
  using assms
  by (simp add: prepare_latents_def Let_def imul_def tensor_mul_scalar_def)

theorem prepare_latents_supplied_witness:
  "prepare_latents demo (Some 0) 2 8 8 demo_generator ''float32'' demo_world
     = (Inl (ValueError_shape [1, 1, 1, 1] [2, 1, 1, 1]), demo_world)
   \<and> prepare_latents demo (Some 0) 1 8 8 demo_generator ''float32''
       (demo_world\<lparr>heap := [unit_latent\<lparr>device := ''cuda''\<rparr>]\<rparr>)
     = (Inl (ValueError_device ''cuda'' ''cpu''),
        demo_world\<lparr>heap := [unit_latent\<lparr>device := ''cuda''\<rparr>]\<rparr>)
   \<and> prepare_latents demo (Some 0) 1 8 8 demo_generator ''float32'' demo_world
     = (Inr 0, demo_world\<lparr>heap := [unit_latent\<lparr>rows := [[2]]\<rparr>]\<rparr>)
   \<and> shape (heap (snd (prepare_latents demo (Some 0) 1 8 8 demo_generator ''float32''
                          demo_world)) ! 0) = [1, 1, 1, 1]"
proof -
  have h1: "0 < length (heap demo_world)"
    by (simp add: demo_world_def)
  have h2: "0 < length (heap (demo_world\<lparr>heap := [unit_latent\<lparr>device := ''cuda''\<rparr>]\<rparr>))"
    by simp
  show ?thesis
    using prepare_latents_supplied [OF h1, of demo 2 8 8 demo_generator "''float32''"]
      prepare_latents_supplied [OF h2, of demo 1 8 8 demo_generator "''float32''"]
      prepare_latents_supplied [OF h1, of demo 1 8 8 demo_generator "''float32''"]
    by (simp add: demo_def demo_world_def unit_latent_def Let_def)
qed

section \<open>Classifier-free guidance\<close>

lemma guidance_rows:
  "map2 (map2 (\<lambda>a b. a + b)) us (map (map (\<lambda>v. g * v)) (map2 (map2 (\<lambda>a b. a - b)) cs us))
     = map2 (map2 (\<lambda>a b. a + g * (b - a))) us (cs :: real list list)"
  by (auto simp: list_eq_iff_nth_eq)

lemma chunk2_halves:
  assumes "rows x = us @ cs" "length us = length cs"
  shows "chunk2 x = Inr (x\<lparr>shape := int (length us) # tl (shape x), rows := us\<rparr>,
                         x\<lparr>shape := int (length cs) # tl (shape x), rows := cs\<rparr>)"
proof -
  have "(length us + length cs + 1) div 2 = length us" using assms(2) by simp
  moreover have "length us + length cs \<noteq> 1" using assms(2) by presburger
  ultimately show ?thesis using assms by (simp add: chunk2_def Let_def)
qed

lemma combine_halves:
  assumes "1 < g" "rows x = us @ cs" "length us = length cs"
  shows "combine g x =
           Inr (x\<lparr>shape := int (length us) # tl (shape x),
                  rows := map2 (map2 (\<lambda>a b. a + g * (b - a))) us cs\<rparr>)"
proof -
  let ?u = "x\<lparr>shape := int (length us) # tl (shape x), rows := us\<rparr>"
  let ?c = "x\<lparr>shape := int (length cs) # tl (shape x), rows := cs\<rparr>"
  have "guidance g ?u ?c
          = Inr (?u\<lparr>rows := map2 (map2 (\<lambda>a b. a + b)) us
                   (map (map (\<lambda>v. g * v)) (map2 (map2 (\<lambda>a b. a - b)) cs us))\<rparr>)"
    using assms(3) by (simp add: guidance_def elementwise_def scalar_mul_tensor_def)
  also have "\<dots> = Inr (x\<lparr>shape := int (length us) # tl (shape x),
                  rows := map2 (map2 (\<lambda>a b. a + g * (b - a))) us cs\<rparr>)"
    unfolding guidance_rows by simp
  finally show ?thesis
    using assms(1) by (simp add: combine_def chunk2_halves [OF assms(2,3)])
qed

text \<open>
  C7. In a denoising step with guidance enabled (scale above 1), the network is run on
  the scaled doubled latents. When its noise prediction has the unconditional half
  \<open>us\<close> first and the conditional half \<open>cs\<close> second, the step succeeds and the noise
  prediction it hands to the scheduler has, element by element, the values
  \<open>u + guidance_scale * (c - u)\<close>; the step's result is what the scheduler returns for
  it. The witness is the case of scale 7.5.
\<close>

theorem guided_step:
  assumes g: "1 < g"
    and x: "x = heap w ! a"
    and y: "y = fst (scale_model_input p (cat x x) t (scheduler w))"
    and halves: "rows (unet p y t emb) = us @ cs" "length us = length cs"
  shows "\<exists>noise w1.
           step p t a g emb kw w
             = (Inr (fst (scheduler_step p noise t x kw
                            (snd (scale_model_input p (cat x x) t (scheduler w))))), w1)
         \<and> rows noise = map2 (map2 (\<lambda>u c. u + g * (c - u))) us cs
         \<and> calls w1 = calls w @ [ScaleModelInput (cat x x) t, Unet y t emb,
                                  SchedulerStep noise t x kw]"
proof -
  let ?noise = "(unet p y t emb)\<lparr>shape := int (length us) # tl (shape (unet p y t emb)),
                  rows := map2 (map2 (\<lambda>u c. u + g * (c - u))) us cs\<rparr>"
  have c: "combine g (unet p y t emb) = Inr ?noise"
    by (rule combine_halves [OF g halves])
  obtain s1 where s: "scale_model_input p (cat x x) t (scheduler w) = (y, s1)"
    using y by (cases "scale_model_input p (cat x x) t (scheduler w)") simp
  obtain out s2 where o: "scheduler_step p ?noise t x kw s1 = (out, s2)"
    by (cases "scheduler_step p ?noise t x kw s1")
  let ?after = "w\<lparr>scheduler := s2,
                   calls := calls w @ [ScaleModelInput (cat x x) t, Unet y t emb,
                                       SchedulerStep ?noise t x kw]\<rparr>"
  have "step p t a g emb kw w = (Inr out, ?after)"
    using g c s o
    by (simp add: step_def Let_def x [symmetric] call_scale_model_input_def
          call_scheduler_step_def log_call_def)
  then have "step p t a g emb kw w
             = (Inr (fst (scheduler_step p ?noise t x kw
                            (snd (scale_model_input p (cat x x) t (scheduler w))))), ?after)
         \<and> rows ?noise = map2 (map2 (\<lambda>u c. u + g * (c - u))) us cs
         \<and> calls ?after = calls w @ [ScaleModelInput (cat x x) t, Unet y t emb,
                                     SchedulerStep ?noise t x kw]"
    using s o by simp
  then show ?thesis by blast
qed

theorem guided_step_witness:
  "\<exists>noise w1.
     step demo 0 0 7.5 (cat (demo_encoder [[0]]) (demo_encoder [[5]])) [] demo_world
       = (Inr (fst (demo_scheduler_step noise 0 unit_latent [] 0)), w1)
   \<and> rows noise = [[0 + 7.5 * (5 - 0)]]
   \<and> calls w1 = [ScaleModelInput (cat unit_latent unit_latent) 0,
                  Unet (cat unit_latent unit_latent) 0
                    (cat (demo_encoder [[0]]) (demo_encoder [[5]])),
                  SchedulerStep noise 0 unit_latent []]"
proof -
  have g: "(1::real) < 7.5" by simp
  have x: "unit_latent = heap demo_world ! 0" by (simp add: demo_defs)
  have y: "cat unit_latent unit_latent
             = fst (scale_model_input demo (cat unit_latent unit_latent) 0 (scheduler demo_world))"
    by (simp add: demo_defs)
  have h: "rows (unet demo (cat unit_latent unit_latent) 0
                   (cat (demo_encoder [[0]]) (demo_encoder [[5]]))) = [[0]] @ [[5]]"
    by (simp add: demo_defs cat_def)
  have l: "length [[0::real]] = length [[5::real]]" by simp
  from guided_step [OF g x y h l, of "[]"]
  show ?thesis by (simp add: demo_defs)
qed

section \<open>A run with guidance off\<close>

text \<open>
  C8. In a run of \<open>generate\<close> with a guidance scale of at most 1, so with scale 1.0, the
  embedding is that of the prompt alone: the text encoder is called once, on the
  prompt's tokens, and never on an opposing or blank prompt. Every call of the
  scheduler's step receives as its noise prediction exactly what the network returned,
  in the call just before, for that embedding; nothing is combined with it, so no
  arithmetic is done on it. No step raises.
\<close>

theorem unguided_run:
  assumes g: "g \<le> 1"
    and run: "generate p prompt opposing_prompt height width n g generator latents_opt
                rid_opt kw w = (els, err, w1)"
  shows "conditional_only p (to_device (text_encoder p (tokenizer p prompt)) (unet_device p))
            None (new_calls w w1)
       \<and> filter is_TextEncoder (new_calls w w1)
           = (if height mod 8 = 0 \<and> width mod 8 = 0
              then [TextEncoder (tokenizer p prompt)] else [])
       \<and> (els \<noteq> [] \<longrightarrow> err = None)"
proof -
  have ng: "\<not> 1 < g" using g by simp
  let ?emb = "to_device (text_encoder p (tokenizer p prompt)) (unet_device p)"
  let ?bs = "case prompt of Single s \<Rightarrow> 1 | Batch ps \<Rightarrow> length ps"
  have te: "get_text_embeddings p prompt opposing_prompt (1 < g) ?bs w =
              (text_encoder p (tokenizer p prompt),
               log_call (TextEncoder (tokenizer p prompt)) (log_call (Tokenizer prompt) w))"
    using ng by (simp add: get_text_embeddings_unguided)
  from run show ?thesis
  proof (cases rule: generate_cases)
    case invalid
    then show ?thesis by (auto simp: new_calls_def)
  next
    case (rejected e emb w0 w2)
    from rejected(5) te have w0: "calls w0 = calls w @ [Tokenizer prompt,
                                     TextEncoder (tokenizer p prompt)]"
      by auto
    from prepare_latents_calls [OF rejected(7)] obtain cs where
      cs: "calls w1 = calls w2 @ cs" "list_all (\<lambda>c. \<exists>sh. c = Randn sh) cs" by blast
    have c: "calls w1 = calls w @ ([Tokenizer prompt, TextEncoder (tokenizer p prompt),
                                    SetTimesteps n] @ cs)"
      using w0 cs(1) rejected(6) by simp
    have q: "list_all (\<lambda>c. \<forall>noise t x kw. c \<noteq> SchedulerStep noise t x kw)
               ([Tokenizer prompt, TextEncoder (tokenizer p prompt), SetTimesteps n] @ cs)"
      using cs(2) by (auto simp: list_all_iff)
    have f: "filter is_TextEncoder cs = []"
      using cs(2) by (auto simp: list_all_iff filter_empty_conv)
    show ?thesis
      unfolding new_calls_append [OF c]
      using conditional_only_quiet [OF q] f rejected(1,3,4) by simp
  next
    case (looped a emb w0 w2 w3)
    from looped(3) te have emb: "emb = text_encoder p (tokenizer p prompt)"
      and w0: "calls w0 = calls w @ [Tokenizer prompt, TextEncoder (tokenizer p prompt)]"
      by auto
    from prepare_latents_calls [OF looped(5)] obtain cs where
      cs: "calls w3 = calls w2 @ cs" "list_all (\<lambda>c. \<exists>sh. c = Randn sh) cs" by blast
    from generate_from_embeddings_unguided_calls [OF ng looped(6)] obtain ds where
      ds: "calls w1 = calls w3 @ ds" "\<forall>before. conditional_only p ?emb before ds"
        "filter is_TextEncoder ds = []"
      and err: "err = None"
      unfolding emb by blast
    define pre where
      "pre = [Tokenizer prompt, TextEncoder (tokenizer p prompt), SetTimesteps n] @ cs"
    have c: "calls w1 = calls w @ (pre @ ds)"
      using w0 cs(1) ds(1) looped(4) by (simp add: pre_def)
    have q: "list_all (\<lambda>c. \<forall>noise t x kw. c \<noteq> SchedulerStep noise t x kw) pre"
      using cs(2) by (auto simp: list_all_iff pre_def)
    have f: "filter is_TextEncoder pre = [TextEncoder (tokenizer p prompt)]"
      using cs(2) by (auto simp: list_all_iff filter_empty_conv pre_def)
    show ?thesis
      unfolding new_calls_append [OF c]
      using conditional_only_quiet [OF q] ds(2,3) f err looped(1,2)
      by (simp add: conditional_only_append)
  qed
qed

theorem unguided_run_witness:
  "conditional_only demo (to_device (demo_encoder [[5]]) ''cpu'') None
     (new_calls demo_world
        (snd (snd (generate demo (Single ''a cat'') None 8 8 2 1 demo_generator (Some 0) None
                     [] demo_world))))
   \<and> SchedulerStep (demo_unet (unit_latent\<lparr>rows := [[4]]\<rparr>) 1
                      (to_device (demo_encoder [[5]]) ''cpu''))
        1 (unit_latent\<lparr>rows := [[4]]\<rparr>) []
       \<in> set (new_calls demo_world
                (snd (snd (generate demo (Single ''a cat'') None 8 8 2 1 demo_generator
                             (Some 0) None [] demo_world))))
   \<and> filter is_TextEncoder
        (new_calls demo_world
          (snd (snd (generate demo (Single ''a cat'') None 8 8 2 1 demo_generator (Some 0) None
                       [] demo_world))))
      = [TextEncoder [[5]]]
   \<and> fst (snd (generate demo (Single ''a cat'') None 8 8 2 1 demo_generator (Some 0) None
                 [] demo_world)) = None"
proof -
  have g: "(1::real) \<le> 1" by simp
  have e: "to_device (text_encoder demo (tokenizer demo (Single ''a cat''))) (unet_device demo)
             = to_device (demo_encoder [[5]]) ''cpu''"
    by (simp add: demo_defs)
  have u: "demo_unet (unit_latent\<lparr>rows := [[4]]\<rparr>) 1 (to_device (demo_encoder [[5]]) ''cpu'')
             = unit_latent\<lparr>rows := [[20]]\<rparr>"
    by (simp add: demo_defs to_device_def)
  have t: "tokenizer demo (Single ''a cat'') = [[5]]" by (simp add: demo_defs)
  from unguided_run [OF g demo_generate_unguided_run]
  show ?thesis
    by (simp add: demo_generate_unguided_run e u t)
       (simp add: new_calls_def demo_defs to_device_def)
qed

section \<open>Safety screening of the final output\<close>

lemma loop_calls_no_safety:
  "list_all loop_call cs \<Longrightarrow> filter safety_call cs = []"
proof (induction cs)
  case Nil
  then show ?case by simp
next
  case (Cons c cs)
  then show ?case by (cases c) simp_all
qed

text \<open>
  C9. The final output of a run that ended without an exception is the last element, and
  the element before it is the state with the last latents, which are decoded to the
  images. If the feature extractor or the safety checker is unset, screening is skipped
  without an error: the output holds the decoded images as they are and an empty flag
  list, and neither collaborator is called. If both are set, the extractor and then the
  checker are called once on the decoded images, and the output holds the checker's
  screened images and the checker's flags; so it holds one flag per image whenever the
  checker returns one flag per image.
\<close>

theorem safety_screening:
  assumes run: "generate_from_embeddings p a emb g rid_opt kw w = (els, None, w1)"
  shows "\<exists>st out.
           last els = Output out \<and> last (butlast els) = State st
         \<and> (feature_extractor p = None \<or> safety_checker p = None \<longrightarrow>
              out = \<lparr>images = fst (decode_to_image p (latents st) w1),
                     nsfw_content_detected = []\<rparr>
            \<and> filter safety_call (new_calls w w1) = [])
         \<and> (\<forall>extract checker.
              feature_extractor p = Some extract \<and> safety_checker p = Some checker \<longrightarrow>
              (let decoded = fst (decode_to_image p (latents st) w1);
                   screened = checker decoded (extract decoded)
               in out = \<lparr>images = fst screened, nsfw_content_detected = snd screened\<rparr>
                \<and> filter safety_call (new_calls w w1)
                    = [FeatureExtractor decoded, SafetyChecker decoded (extract decoded)]
                \<and> (length (snd screened) = length (rows (fst screened)) \<longrightarrow>
                     length (nsfw_content_detected out) = length (rows (images out)))))"
proof -
  from run obtain sts r w2 w3 rid b out where
    w2: "w2 = imul a (init_noise_sigma p (scheduler w))
            (case rid_opt of None \<Rightarrow> log_call (TokenUrlsafe ID_LENGTH) w | Some r \<Rightarrow> w)"
    and d: "denoise p rid g emb kw
       (zip [0..<length (timesteps p (scheduler w))] (timesteps p (scheduler w))) a w2
       = (map State sts, r, w3)"
    and r: "r = Inr b"
    and chk: "(out, w1) = check_for_safety p
                \<lparr>images = fst (decode_to_image p b (log_call CudaEmptyCache w3)),
                 nsfw_content_detected = []\<rparr>
                (snd (decode_to_image p b (log_call CudaEmptyCache w3)))"
    and els: "els = State \<lparr>run_id = rid, step_index = - 1,
                           timestep = num_train_timesteps p (scheduler w), latents = a,
                           predicted_original = None\<rparr> # map State sts @ [Output out]"
    by (rule generate_from_embeddings_cases) auto
  define init where
    "init = \<lparr>run_id = rid, step_index = - 1,
              timestep = num_train_timesteps p (scheduler w), latents = a,
              predicted_original = None\<rparr>"
  define fin where "fin = last (init # sts)"
  define D where "D = fst (decode_to_image p (latents fin) w1)"
  define wc where "wc = log_call CudaEmptyCache w3"
  define wd where "wd = snd (decode_to_image p b wc)"
  have els1: "els = map State (init # sts) @ [Output out]" using els by (simp add: init_def)
  have last: "last els = Output out" using els1 by simp
  have "butlast els = map State (init # sts)" using els1 by (simp add: butlast_append)
  moreover have "last (map State (init # sts)) = State fin"
    unfolding fin_def by (rule last_map) simp
  ultimately have prev: "last (butlast els) = State fin" by simp
  have "last (map latents (init # sts)) = latents fin"
    unfolding fin_def by (rule last_map) simp
  moreover have "latents init = a" by (simp add: init_def)
  ultimately have b: "b = latents fin" using denoise_last [OF d [unfolded r]] by simp
  from decode_to_image_fields [of p b wc "fst (decode_to_image p b wc)" wd]
  obtain x where h5: "heap wd = heap w3" and c5: "calls wd = calls w3 @ [CudaEmptyCache, VaeDecode x]"
    by (auto simp: wd_def wc_def)
  have chk1: "check_for_safety p
                \<lparr>images = fst (decode_to_image p b wc), nsfw_content_detected = []\<rparr> wd
              = (out, w1)"
    using chk by (simp add: wd_def wc_def)
  have h1: "heap w1 = heap w3" using check_for_safety_heap [OF chk1] h5 by simp
  have "heap wc ! b = heap w1 ! b" using h1 by (simp add: wc_def)
  then have dec: "fst (decode_to_image p b wc) = D"
    unfolding D_def b [symmetric] by (rule decode_to_image_image)
  note chk2 = chk1 [unfolded dec]
  define pre where
    "pre cs0 = (case rid_opt of None \<Rightarrow> [TokenUrlsafe ID_LENGTH] | Some r \<Rightarrow> [])
             @ cs0 @ [CudaEmptyCache, VaeDecode x]" for cs0
  have c2: "calls w2 = calls w @ (case rid_opt of None \<Rightarrow> [TokenUrlsafe ID_LENGTH] | Some r \<Rightarrow> [])"
    by (simp add: w2 split: option.splits)
  from denoise_calls [OF d] obtain cs where
    c3: "calls w3 = calls w2 @ cs" "list_all loop_call cs" by blast
  have before: "calls wd = calls w @ pre cs"
    using c2 c3 c5 by (simp add: pre_def)
  have quiet: "filter safety_call (pre cs) = []"
    using loop_calls_no_safety [OF c3(2)] by (cases rid_opt) (simp_all add: pre_def)
  have skip: "out = \<lparr>images = D, nsfw_content_detected = []\<rparr>
            \<and> filter safety_call (new_calls w w1) = []"
    if "feature_extractor p = None \<or> safety_checker p = None"
  proof -
    from that have "check_for_safety p \<lparr>images = D, nsfw_content_detected = []\<rparr> wd
                      = (\<lparr>images = D, nsfw_content_detected = []\<rparr>, wd)"
      by (auto simp: check_for_safety_eq split: option.splits)
    with chk2 have o: "out = \<lparr>images = D, nsfw_content_detected = []\<rparr>" and "w1 = wd"
      by simp_all
    then have "new_calls w w1 = pre cs" using before by (simp add: new_calls_def)
    with o quiet show ?thesis by simp
  qed
  have screen: "(let decoded = D; screened = sc decoded (fe decoded)
               in out = \<lparr>images = fst screened, nsfw_content_detected = snd screened\<rparr>
                \<and> filter safety_call (new_calls w w1)
                    = [FeatureExtractor decoded, SafetyChecker decoded (fe decoded)]
                \<and> (length (snd screened) = length (rows (fst screened)) \<longrightarrow>
                     length (nsfw_content_detected out) = length (rows (images out))))"
    if "feature_extractor p = Some fe \<and> safety_checker p = Some sc"
    for fe sc
  proof -
    from that have "check_for_safety p \<lparr>images = D, nsfw_content_detected = []\<rparr> wd
                      = (\<lparr>images = fst (sc D (fe D)), nsfw_content_detected = snd (sc D (fe D))\<rparr>,
                         wd\<lparr>calls := calls wd @ [FeatureExtractor D, SafetyChecker D (fe D)]\<rparr>)"
      by (simp add: check_for_safety_eq)
    with chk2 have img: "out = \<lparr>images = fst (sc D (fe D)),
                              nsfw_content_detected = snd (sc D (fe D))\<rparr>"
      and c1: "calls w1 = calls w @ (pre cs @ [FeatureExtractor D, SafetyChecker D (fe D)])"
      using before by auto
    have "filter safety_call (new_calls w w1) = [FeatureExtractor D, SafetyChecker D (fe D)]"
      unfolding new_calls_append [OF c1] using quiet by simp
    with img show ?thesis by (simp add: Let_def)
  qed
  show ?thesis
    apply (rule exI [of _ fin])
    apply (rule exI [of _ out])
    using last prev skip screen unfolding D_def by blast
qed

theorem safety_screening_witness:
  "last (butlast (fst (generate_from_embeddings demo 0 (demo_encoder [[5]]) 1 None []
                         (demo_world\<lparr>scheduler := 2\<rparr>))))
     = State \<lparr>run_id = ''q1w2e3r4t5y'', step_index = 1, timestep = 0, latents = 2,
               predicted_original = None\<rparr>
   \<and> feature_extractor demo = None
   \<and> last (fst (generate_from_embeddings demo 0 (demo_encoder [[5]]) 1 None []
                  (demo_world\<lparr>scheduler := 2\<rparr>)))
     = Output \<lparr>images = unit_latent, nsfw_content_detected = []\<rparr>
   \<and> (\<exists>extract checker.
         feature_extractor demo_checked = Some extract
       \<and> safety_checker demo_checked = Some checker
       \<and> length (snd (checker (unit_latent\<lparr>rows := [[1 / 2]]\<rparr>)
                         (extract (unit_latent\<lparr>rows := [[1 / 2]]\<rparr>))))
           = length (rows (fst (checker (unit_latent\<lparr>rows := [[1 / 2]]\<rparr>)
                                  (extract (unit_latent\<lparr>rows := [[1 / 2]]\<rparr>))))))
   \<and> last (fst (generate_from_embeddings demo_checked 0 (demo_encoder [[1]]) 1 (Some ''run'')
                  [] (demo_world\<lparr>scheduler := 1\<rparr>)))
     = Output \<lparr>images = unit_latent\<lparr>rows := [[1 / 2]]\<rparr>, nsfw_content_detected = [True]\<rparr>"
proof -
  from safety_screening [OF demo_loop_run] safety_screening [OF demo_checked_loop_run]
  show ?thesis
    by (simp add: demo_loop_run demo_checked_loop_run) (simp add: demo_defs run_defs)
qed

section \<open>Supplied latents are scaled in place\<close>

text \<open>
  C10. Let the caller supply latents that \<open>generate\<close> accepts: height and width are
  divisible by 8, and the tensor has the expected shape and is on the network's device.
  Then the run works on the caller's own tensor: the first state it yields refers to the
  very address the caller gave, and the tensor at that address has been overwritten, its
  values multiplied by the scheduler's initial sigma once in \<open>prepare_latents\<close> and once
  more at the start of \<open>generate_from_embeddings\<close>. Its shape, device and dtype are as
  before. The sigma is the one the scheduler has after \<open>set_timesteps\<close>.
\<close>

theorem supplied_latents_scaled_in_place:
  assumes a: "a < length (heap w)"
    and divisible: "height mod 8 = 0" "width mod 8 = 0"
    and shape_ok: "shape (heap w ! a) =
                   [int (case prompt of Single s \<Rightarrow> 1 | Batch ps \<Rightarrow> length ps),
                    unet_in_channels p, height div 8, width div 8]"
    and device_ok: "device (heap w ! a) = unet_device p"
    and sigma: "sigma = init_noise_sigma p (set_timesteps p n (scheduler w))"
    and run: "generate p prompt opposing_prompt height width n g generator (Some a) rid_opt
                kw w = (els, err, w1)"
  shows "(\<exists>st. hd els = State st \<and> step_index st = - 1 \<and> latents st = a)
       \<and> heap w1 ! a
           = (heap w ! a)\<lparr>rows := map (map (\<lambda>v. v * sigma * sigma)) (rows (heap w ! a))\<rparr>
       \<and> shape (heap w1 ! a) = shape (heap w ! a)
       \<and> device (heap w1 ! a) = device (heap w ! a)
       \<and> dtype (heap w1 ! a) = dtype (heap w ! a)"
proof -
  let ?bs = "case prompt of Single s \<Rightarrow> 1 | Batch ps \<Rightarrow> length ps"
  let ?x = "heap w ! a"
  have accepted: "prepare_latents p (Some a) ?bs height width generator (unet_dtype p) w2
          = (Inr a, w2\<lparr>heap := (heap w2)
               [a := ?x\<lparr>rows := map (map (\<lambda>v. v * sigma)) (rows ?x)\<rparr>]\<rparr>)"
    if "heap w2 = heap w" "scheduler w2 = set_timesteps p n (scheduler w)" for w2
    using that a shape_ok device_ok
    by (simp add: prepare_latents_def Let_def imul_def tensor_mul_scalar_def sigma)
  have twice: "map (map (\<lambda>v. v * sigma)) (map (map (\<lambda>v. v * sigma)) rs)
                 = map (map (\<lambda>v. v * sigma * sigma)) rs" for rs :: "real list list"
    by simp
  from run have main: "(\<exists>st. hd els = State st \<and> step_index st = - 1 \<and> latents st = a)
       \<and> heap w1 ! a = ?x\<lparr>rows := map (map (\<lambda>v. v * sigma * sigma)) (rows ?x)\<rparr>"
  proof (cases rule: generate_cases)
    case invalid
    with divisible show ?thesis by simp
  next
    case (rejected e emb w0 w2)
    from get_text_embeddings_fields [OF rejected(5)] rejected(6)
    have "heap w2 = heap w" "scheduler w2 = set_timesteps p n (scheduler w)" by simp_all
    from accepted [OF this] rejected(7) show ?thesis by simp
  next
    case (looped a1 emb w0 w2 w3)
    from get_text_embeddings_fields [OF looped(3)] looped(4)
    have w2: "heap w2 = heap w" "scheduler w2 = set_timesteps p n (scheduler w)" by simp_all
    from accepted [OF this] looped(5)
    have a1: "a1 = a"
      and w3: "w3 = w2\<lparr>heap := (heap w2)
               [a := ?x\<lparr>rows := map (map (\<lambda>v. v * sigma)) (rows ?x)\<rparr>]\<rparr>"
      by simp_all
    have len: "a < length (heap w3)" using a w2(1) by (simp add: w3)
    have cell: "heap w3 ! a = ?x\<lparr>rows := map (map (\<lambda>v. v * sigma)) (rows ?x)\<rparr>"
      using a w2(1) by (simp add: w3)
    have s3: "init_noise_sigma p (scheduler w3) = sigma" by (simp add: w3 w2(2) sigma)
    from generate_from_embeddings_latents [OF looped(6) [unfolded a1] len]
    show ?thesis
      by (simp add: cell s3 tensor_mul_scalar_def twice)
  qed
  then show ?thesis by simp
qed

theorem supplied_latents_scaled_in_place_witness:
  "shape (heap demo_world ! 0) = [1, unet_in_channels demo, 8 div 8, 8 div 8]
   \<and> device (heap demo_world ! 0) = unet_device demo
   \<and> init_noise_sigma demo (set_timesteps demo 2 (scheduler demo_world)) = 2
   \<and> hd (fst (generate demo (Single ''a cat'') None 8 8 2 1 demo_generator (Some 0) None []
                 demo_world))
       = State \<lparr>run_id = ''q1w2e3r4t5y'', step_index = - 1, timestep = 1000, latents = 0,
                 predicted_original = None\<rparr>
   \<and> heap (snd (snd (generate demo (Single ''a cat'') None 8 8 2 1 demo_generator (Some 0)
                       None [] demo_world))) ! 0
       = unit_latent\<lparr>rows := [[1 * 2 * 2]]\<rparr>"
proof -
  have a: "0 < length (heap demo_world)" by (simp add: demo_defs)
  have d: "(8::int) mod 8 = 0" by simp
  have s: "shape (heap demo_world ! 0) =
             [int (case Single ''a cat'' of Single s \<Rightarrow> 1 | Batch ps \<Rightarrow> length ps),
              unet_in_channels demo, 8 div 8, 8 div 8]"
    by (simp add: demo_defs)
  have v: "device (heap demo_world ! 0) = unet_device demo" by (simp add: demo_defs)
  have g: "(2::real) = init_noise_sigma demo (set_timesteps demo 2 (scheduler demo_world))"
    by (simp add: demo_defs)
  from supplied_latents_scaled_in_place [OF a d d s v g demo_generate_unguided_run]
  show ?thesis
    by (simp add: demo_generate_unguided_run) (simp add: demo_defs)
qed

end
